theory Spec2Isabelle
  imports
    Complex_Main
    "HOL-Library.Word"
    "HOL-Library.Multiset"
    "HOL-Library.Char_ord"
    "HOL-Library.List_Lexorder"
    "HOL-Library.Product_Lexorder"
begin

section \<open>Overlay hit test (src/views/view.c, lines 945--1157)\<close>

text \<open>
  The enumerators of \<^verbatim>\<open>dt_view_image_over_t\<close> are declared in views/view.h, which is
  not part of the sources at hand.  The code steps through them with \<^verbatim>\<open>++\<close> from
  \<^verbatim>\<open>DT_VIEW_ERR\<close> to \<^verbatim>\<open>DT_VIEW_END\<close> and from \<^verbatim>\<open>DT_VIEW_STAR_1\<close> to
  \<^verbatim>\<open>DT_VIEW_STAR_5\<close>, so they are consecutive C integers; the star loop uses -1 for
  "no star", and the enumeration starts there.
\<close>

definition DT_VIEW_ERR :: int where "DT_VIEW_ERR = -1"
definition DT_VIEW_DESERT :: int where "DT_VIEW_DESERT = 0"
definition DT_VIEW_STAR_1 :: int where "DT_VIEW_STAR_1 = 1"
definition DT_VIEW_STAR_2 :: int where "DT_VIEW_STAR_2 = 2"
definition DT_VIEW_STAR_3 :: int where "DT_VIEW_STAR_3 = 3"
definition DT_VIEW_STAR_4 :: int where "DT_VIEW_STAR_4 = 4"
definition DT_VIEW_STAR_5 :: int where "DT_VIEW_STAR_5 = 5"
definition DT_VIEW_REJECT :: int where "DT_VIEW_REJECT = 6"
definition DT_VIEW_GROUP :: int where "DT_VIEW_GROUP = 7"
definition DT_VIEW_AUDIO :: int where "DT_VIEW_AUDIO = 8"
definition DT_VIEW_ALTERED :: int where "DT_VIEW_ALTERED = 9"
definition DT_VIEW_END :: int where "DT_VIEW_END = 10"

definition DECORATION_SIZE_LIMIT :: int where "DECORATION_SIZE_LIMIT = 40"

text \<open>
  The geometry is float arithmetic in the source; here it is arithmetic on \<^typ>\<open>real\<close>,
  so rounding is not modelled.  \<^verbatim>\<open>DT_PIXEL_APPLY_DPI(v)\<close> is a macro of gui/gtk.h that
  scales \<open>v\<close> by the DPI factor of the GUI; the factor is the parameter \<open>dpi\<close>.
\<close>

definition DT_PIXEL_APPLY_DPI :: "real \<Rightarrow> real \<Rightarrow> real" where
  "DT_PIXEL_APPLY_DPI dpi v = v * dpi"

text \<open>\<^verbatim>\<open>r1 = fminf(DT_PIXEL_APPLY_DPI(20.0f) / 2.0f, 0.91 * width / 20.0f)\<close>\<close>

definition overlay_r1 :: "real \<Rightarrow> int \<Rightarrow> real" where
  "overlay_r1 dpi width = min (DT_PIXEL_APPLY_DPI dpi 20 / 2) (0.91 * real_of_int width / 20)"

text \<open>
  The row of the glyphs: \<^verbatim>\<open>y\<close> as set before the \<^verbatim>\<open>switch\<close>.  \<open>ext\<close> is the
  configuration flag plugins/lighttable/extended_thumb_overlay.
\<close>

definition overlay_y :: "bool \<Rightarrow> real \<Rightarrow> int \<Rightarrow> int \<Rightarrow> real" where
  "overlay_y ext r1 height zoom =
     (if zoom \<noteq> 1
      then (if ext then 0.93 * real_of_int height else 0.955 * real_of_int height - r1)
      else 9 * r1)"

text \<open>
  The centre of a star, the expression the source writes twice (in the search loop with
  the loop variable \<open>i\<close> in grid mode and with \<open>what\<close> in single-image mode, and again
  under \<^verbatim>\<open>case DT_VIEW_STAR_1 ... DT_VIEW_STAR_5\<close> with \<open>what\<close>).
\<close>

definition star_x :: "int \<Rightarrow> int \<Rightarrow> real \<Rightarrow> int \<Rightarrow> int \<Rightarrow> real" where
  "star_x zoom width r1 i what =
     (if zoom \<noteq> 1
      then 0.5 * real_of_int width - 5 * r1 + real_of_int (i - DT_VIEW_STAR_1) * 2.5 * r1
      else 3 * r1 + (real_of_int (what - DT_VIEW_STAR_1) + 1.5) * 2.5 * r1)"

text \<open>One round of the loop that searches the hovered star.\<close>

definition star_step ::
  "int \<Rightarrow> int \<Rightarrow> real \<Rightarrow> real \<Rightarrow> int \<Rightarrow> int \<Rightarrow> int \<Rightarrow> int \<Rightarrow> int \<Rightarrow> int" where
  "star_step zoom width r1 y what px py i star =
     (let x = star_x zoom width r1 i what in
      if (real_of_int px - x) * (real_of_int px - x) + (real_of_int py - y) * (real_of_int py - y)
           < r1 * r1
      then i else star)"

definition hovered_star ::
  "int \<Rightarrow> int \<Rightarrow> int \<Rightarrow> real \<Rightarrow> real \<Rightarrow> int \<Rightarrow> int \<Rightarrow> int \<Rightarrow> int" where
  "hovered_star active zoom width r1 y what px py =
     (if active \<noteq> 0
      then fold (star_step zoom width r1 y what px py)
             [DT_VIEW_STAR_1, DT_VIEW_STAR_2, DT_VIEW_STAR_3, DT_VIEW_STAR_4, DT_VIEW_STAR_5] (-1)
      else -1)"

text \<open>
  \<^verbatim>\<open>dt_view_process_image_over\<close>: the value it returns.  The drawing on \<^verbatim>\<open>cr\<close> and the
  image flags only choose what is painted and never reach \<^verbatim>\<open>ret\<close>, so they are left
  out; with \<^verbatim>\<open>cr == NULL\<close> (check only) nothing else happens in the source.
\<close>

definition dt_view_process_image_over ::
  "real \<Rightarrow> bool \<Rightarrow> int \<Rightarrow> int \<Rightarrow> int \<Rightarrow> int \<Rightarrow> int \<Rightarrow> int \<Rightarrow> int \<Rightarrow> int" where
  "dt_view_process_image_over dpi ext what active width height zoom px py =
     (let r1 = overlay_r1 dpi width;
          y = overlay_y ext r1 height zoom;
          star = hovered_star active zoom width r1 y what px py;
          fpx = real_of_int px;
          fpy = real_of_int py
      in
      if DT_VIEW_STAR_1 \<le> what \<and> what \<le> DT_VIEW_STAR_5 then
        (if active \<noteq> 0 \<and> star > what - DT_VIEW_STAR_1 then 1 else 0)
      else if what = DT_VIEW_REJECT then
        (let x = (if zoom \<noteq> 1 then 0.045 * real_of_int width + r1 else 3 * r1) in
         if active \<noteq> 0 \<and> (fpx - x) * (fpx - x) + (fpy - y) * (fpy - y) < r1 * r1 then 1 else 0)
      else if what = DT_VIEW_GROUP then
        (let x = (if zoom \<noteq> 1 then real_of_int width * 0.955 - r1 * 4.5
                  else (3 + 2 + 1 + 5 * 2.5 + 2 + 2) * r1);
             y' = (if zoom \<noteq> 1 then real_of_int height * 0.045 else y - r1)
         in if active \<noteq> 0 \<and> \<bar>fpx - x - r1\<bar> \<le> 0.9 * r1 \<and> \<bar>fpy - y' - r1\<bar> \<le> 0.9 * r1
            then 1 else 0)
      else if what = DT_VIEW_AUDIO then
        (let x = (if zoom \<noteq> 1 then real_of_int width * 0.955 - r1 * 6
                  else (3 + 2 + 1 + 5 * 2.5 + 2 + 6) * r1);
             y' = (if zoom \<noteq> 1 then real_of_int height * 0.045 + r1 else y)
         in if active \<noteq> 0 \<and> \<bar>fpx - x\<bar> \<le> 1.2 * r1 \<and> \<bar>fpy - y'\<bar> \<le> 1.2 * r1 then 1 else 0)
      else if what = DT_VIEW_ALTERED then
        (let x = (if zoom \<noteq> 1 then real_of_int width * 0.955 - r1
                  else (3 + 2 + 1 + 5 * 2.5 + 2) * r1);
             y' = (if zoom \<noteq> 1 then real_of_int height * 0.045 + r1 else y)
         in if active \<noteq> 0 \<and> \<bar>fpx - x\<bar> \<le> 1.2 * r1 \<and> \<bar>fpy - y'\<bar> \<le> 1.2 * r1 then 1 else 0)
      else 0)"

text \<open>C's integer division truncates towards zero.\<close>

definition c_div :: "int \<Rightarrow> int \<Rightarrow> int" where
  "c_div a b = sgn a * sgn b * (\<bar>a\<bar> div \<bar>b\<bar>)"

text \<open>
  The scan of \<^verbatim>\<open>dt_view_guess_image_over\<close>:
  \<^verbatim>\<open>for(i = DT_VIEW_ERR; i < DT_VIEW_END; i++) if(process(i, 1, ...)) return i;\<close>
\<close>

fun guess_scan :: "(int \<Rightarrow> int) \<Rightarrow> int list \<Rightarrow> int option" where
  "guess_scan f [] = None"
| "guess_scan f (i # is) = (if f i \<noteq> 0 then Some i else guess_scan f is)"

definition dt_view_guess_image_over ::
  "bool \<Rightarrow> real \<Rightarrow> bool \<Rightarrow> int \<Rightarrow> int \<Rightarrow> int \<Rightarrow> int \<Rightarrow> int \<Rightarrow> int" where
  "dt_view_guess_image_over show_overlays dpi ext width height zoom px py =
     (let in_metadata_zone = ((px < width \<and> py < c_div height 2) \<or> zoom > 1);
          draw_metadata = (show_overlays \<or> in_metadata_zone)
      in
      if draw_metadata \<and> width > DECORATION_SIZE_LIMIT then
        (case guess_scan
                (\<lambda>i. dt_view_process_image_over dpi ext i 1 width height zoom px py)
                [DT_VIEW_ERR ..  DT_VIEW_END - 1] of
           Some i \<Rightarrow> i
         | None \<Rightarrow> DT_VIEW_DESERT)
      else DT_VIEW_DESERT)"

section \<open>Views, overlay modules and the global state\<close>

text \<open>
  A crash of the C program: a call through a function pointer that is \<^verbatim>\<open>NULL\<close>.
\<close>

datatype fault = Null_call

text \<open>
  \<^verbatim>\<open>dt_view_t\<close>: the capability table that \<^verbatim>\<open>dt_view_load_module\<close> fills.  A slot
  whose symbol is missing is \<^verbatim>\<open>NULL\<close>: \<open>None\<close> for a slot that returns a value,
  \<open>False\<close> for a slot that returns nothing.  A present slot is the value its function
  returns (for the input handlers, as a function of the event's arguments); what the
  function does besides is not known here, and each call is recorded in the trace of
  the state.  A view is identified by its \<^verbatim>\<open>module_name\<close>.
\<close>

record dt_view_t =
  "module_name" :: string
  name :: "string option"
  view :: "32 word option"
  try_enter :: "int option"
  enter :: bool
  leave :: bool
  connect_key_accels :: bool
  mouse_leave :: bool
  mouse_moved :: bool
  button_released :: "(real \<Rightarrow> real \<Rightarrow> int \<Rightarrow> 32 word \<Rightarrow> int) option"
  button_pressed :: "(real \<Rightarrow> real \<Rightarrow> real \<Rightarrow> int \<Rightarrow> int \<Rightarrow> 32 word \<Rightarrow> int) option"

text \<open>
  \<^verbatim>\<open>dt_lib_module_t\<close> (libs/lib.h, not part of the sources at hand): the fields that
  view.c reads and writes.  \<^verbatim>\<open>dt_lib_is_visible_in_view(plugin, v)\<close>,
  \<^verbatim>\<open>dt_lib_is_visible(plugin)\<close> and \<^verbatim>\<open>dt_lib_gui_get_expander(plugin)\<close> are functions
  of libs/lib.c; what they return is given with the module, as \<open>visible_in_view\<close>,
  \<open>lib_visible\<close> and \<open>expander\<close>.  view.c tests the optional slots before it calls
  them (\<open>False\<close> or \<open>None\<close> for \<^verbatim>\<open>NULL\<close>) and calls \<^verbatim>\<open>gui_cleanup\<close>,
  \<^verbatim>\<open>container\<close> and \<^verbatim>\<open>expandable\<close> without a test: these three are taken as
  always present, the last two as the value they return.  A widget is a pointer,
  \<open>None\<close> for \<^verbatim>\<open>NULL\<close>.
\<close>

type_synonym widget = "nat option"

record dt_lib_module_t =
  plugin_name :: string
  visible_in_view :: "dt_view_t \<Rightarrow> bool"
  lib_visible :: bool
  expander :: widget
  widget :: widget
  data :: "nat option"
  accel_closures :: "nat list"
  container :: nat
  expandable :: bool
  view_enter :: bool
  view_leave :: bool
  lib_connect_key_accels :: bool
  lib_mouse_leave :: "int option"
  lib_mouse_moved :: "(real \<Rightarrow> real \<Rightarrow> real \<Rightarrow> int \<Rightarrow> int) option"
  lib_button_released :: "(real \<Rightarrow> real \<Rightarrow> int \<Rightarrow> 32 word \<Rightarrow> int) option"
  lib_button_pressed :: "(real \<Rightarrow> real \<Rightarrow> real \<Rightarrow> int \<Rightarrow> int \<Rightarrow> 32 word \<Rightarrow> int) option"

definition dt_lib_is_visible_in_view :: "dt_lib_module_t \<Rightarrow> dt_view_t \<Rightarrow> bool" where
  "dt_lib_is_visible_in_view plugin v = visible_in_view plugin v"

text \<open>
  What the program does to the outside: a call of a capability of a view (named by its
  module name) or of an overlay module (named by its position in
  \<^verbatim>\<open>darktable.lib->plugins\<close>), a call into the toolkit, a signal raised.
\<close>

datatype hook =
    Try_enter | Enter | Leave | Connect_key_accels
  | View_enter | View_leave | Gui_cleanup
  | Mouse_leave | Mouse_moved | Button_released | Button_pressed

datatype dt_signal_t =
    DT_SIGNAL_ACTIVE_IMAGES_CHANGE
  | DT_SIGNAL_VIEWMANAGER_VIEW_CHANGED "string option" string
  | DT_SIGNAL_CONTROL_LOG_REDRAW

datatype event =
    View_call hook string
  | Lib_call hook nat
  | Toolkit string
  | Signal_raise dt_signal_t

datatype gdk_cursor = GDK_LEFT_PTR | GDK_CURSOR nat

text \<open>
  The global \<^verbatim>\<open>darktable\<close>, as far as view.c touches it: the view manager
  (\<open>views\<close>, \<open>current_view\<close>, \<open>active_images\<close>, the accelerator window), the overlay
  modules, and the collaborators of the switch (accelerator flag, cursor, pending
  scroll, undo list, the children of each UI container; \<^verbatim>\<open>DT_UI_CONTAINER_SIZE\<close> is
  the length of \<open>containers\<close>).  \<open>view_accel_closures\<close> holds
  \<^verbatim>\<open>view->accel_closures\<close> per module name.  \<open>mouse_over_id\<close> is what
  \<^verbatim>\<open>dt_control_get_mouse_over_id()\<close> returns and \<open>selected_collected\<close> the rows of
  the query "selected images in the collection, by rowid".
\<close>

record darktable_t =
  views :: "dt_view_t list"
  current_view :: "dt_view_t option"
  view_accel_closures :: "string \<Rightarrow> nat list"
  plugins :: "dt_lib_module_t list"
  active_images :: "int list"
  accels_window :: widget
  accels_sticky :: bool
  key_accelerators_on :: bool
  cursor :: gdk_cursor
  scroll_to :: "real \<times> real"
  undo :: "nat list"
  containers :: "widget list list"
  mouse_over_id :: int
  selected_collected :: "int list"
  trace :: "event list"

definition emit :: "event list \<Rightarrow> darktable_t \<Rightarrow> darktable_t" where
  "emit evs s = s\<lparr>trace := trace s @ evs\<rparr>"

section \<open>The view registry (lines 113--141)\<close>

text \<open>
  \<^verbatim>\<open>strcmp\<close> of the C library: bytes are compared as unsigned values, a proper prefix
  is smaller.  C fixes only the sign of the result; the model returns -1, 0 or 1.
\<close>

fun strcmp :: "string \<Rightarrow> string \<Rightarrow> int" where
  "strcmp [] [] = 0"
| "strcmp [] (b # bs) = -1"
| "strcmp (a # as) [] = 1"
| "strcmp (a # as) (b # bs) =
     (if a = b then strcmp as bs
      else if (of_char a :: nat) < of_char b then -1 else 1)"

definition view_order :: "string list" where
  "view_order = [''lighttable'', ''darkroom'']"

definition n_view_order :: nat where
  "n_view_order = length view_order"

text \<open>
  The loop of \<^verbatim>\<open>sort_views\<close> for one of the two views:
  \<^verbatim>\<open>pos = n_view_order; for(i...) if(!strcmp(module_name, view_order[i])) pos = i;\<close>
\<close>

definition view_pos :: "string \<Rightarrow> int" where
  "view_pos mname =
     fold (\<lambda>i pos. if strcmp mname (view_order ! i) = 0 then int i else pos)
       [0..<n_view_order] (int n_view_order)"

text \<open>
  \<^verbatim>\<open>sort_views\<close> calls \<^verbatim>\<open>av->name(av)\<close> and \<^verbatim>\<open>bv->name(bv)\<close> without a test, and
  \<^verbatim>\<open>dt_view_load_module\<close> leaves \<^verbatim>\<open>name\<close> \<^verbatim>\<open>NULL\<close> when the module has no such
  symbol.
\<close>

definition sort_views :: "dt_view_t \<Rightarrow> dt_view_t \<Rightarrow> fault + int" where
  "sort_views av bv =
     (case name av of
        None \<Rightarrow> Inl Null_call
      | Some aname \<Rightarrow>
         (case name bv of
            None \<Rightarrow> Inl Null_call
          | Some bname \<Rightarrow>
             (let apos = view_pos (module_name av);
                  bpos = view_pos (module_name bv);
                  order = apos - bpos
              in Inr (if order \<noteq> 0 then order else strcmp aname bname))))"

text \<open>
  Modelled from the spec: \<^verbatim>\<open>dt_module_load_modules\<close> (common/module.h) is not part of
  the sources at hand.  Section 4.2 of the specification: the registry is the loaded
  views ordered by the comparison, and "this ordering must be stable".  The model is a
  stable insertion sort that calls the comparison function it is given, as
  \<^verbatim>\<open>dt_view_manager_load_modules\<close> passes \<^verbatim>\<open>sort_views\<close>; its argument is the list of
  the loaded modules in the order in which the sort receives them.
\<close>

fun insert_sorted :: "('a \<Rightarrow> 'a \<Rightarrow> fault + int) \<Rightarrow> 'a \<Rightarrow> 'a list \<Rightarrow> fault + 'a list" where
  "insert_sorted cmp x [] = Inr [x]"
| "insert_sorted cmp x (y # ys) =
     (case cmp x y of
        Inl e \<Rightarrow> Inl e
      | Inr c \<Rightarrow>
         if c \<le> 0 then Inr (x # y # ys)
         else (case insert_sorted cmp x ys of Inl e \<Rightarrow> Inl e | Inr zs \<Rightarrow> Inr (y # zs)))"

fun dt_module_load_modules :: "('a \<Rightarrow> 'a \<Rightarrow> fault + int) \<Rightarrow> 'a list \<Rightarrow> fault + 'a list" where
  "dt_module_load_modules cmp [] = Inr []"
| "dt_module_load_modules cmp (x # xs) =
     (case dt_module_load_modules cmp xs of
        Inl e \<Rightarrow> Inl e
      | Inr ys \<Rightarrow> insert_sorted cmp x ys)"

definition dt_view_manager_load_modules :: "dt_view_t list \<Rightarrow> fault + dt_view_t list" where
  "dt_view_manager_load_modules loaded = dt_module_load_modules sort_views loaded"

text \<open>
  The order the specification states, in its words: the views named in the priority
  list first, in the order of the list, then all others by case-sensitive comparison of
  their display names (the order of \<^typ>\<open>string\<close> is the lexicographic order of the
  bytes).
\<close>

definition display_name :: "dt_view_t \<Rightarrow> string" where
  "display_name v = (case name v of Some n \<Rightarrow> n | None \<Rightarrow> module_name v)"

definition registry_order_spec :: "dt_view_t list \<Rightarrow> dt_view_t list" where
  "registry_order_spec vs =
     concat (map (\<lambda>n. filter (\<lambda>v. module_name v = n) vs) view_order)
     @ sort_key display_name (filter (\<lambda>v. module_name v \<notin> set view_order) vs)"

text \<open>
  The comparison of \<^verbatim>\<open>sort_views\<close> orders two views by this pair: the position in
  \<open>view_order\<close>, then the display name.
\<close>

definition view_key :: "dt_view_t \<Rightarrow> int \<times> string" where
  "view_key v = (view_pos (module_name v), display_name v)"

text \<open>
  \<^verbatim>\<open>dt_view_manager_name\<close> (lines 472--479): the name of the current view, with the
  test of the \<^verbatim>\<open>name\<close> slot that \<^verbatim>\<open>sort_views\<close> does not make.
\<close>

definition dt_view_manager_name :: "darktable_t \<Rightarrow> string" where
  "dt_view_manager_name s =
     (case current_view s of
        None \<Rightarrow> []
      | Some v \<Rightarrow> (case name v of Some n \<Rightarrow> n | None \<Rightarrow> module_name v))"

section \<open>Active images (lines 897--938 and 2213--2230)\<close>

definition dt_view_get_image_to_act_on :: "darktable_t \<Rightarrow> int" where
  "dt_view_get_image_to_act_on s =
     (let mouseover = mouse_over_id s in
      if mouseover > 0 then mouseover
      else if length (active_images s) > 0 then active_images s ! 0
      else (case selected_collected s of [] \<Rightarrow> -1 | i # _ \<Rightarrow> i))"

definition dt_view_active_images_reset :: "bool \<Rightarrow> darktable_t \<Rightarrow> darktable_t" where
  "dt_view_active_images_reset raise s =
     (if length (active_images s) < 1 then s
      else (let s1 = s\<lparr>active_images := []\<rparr> in
            if raise then emit [Signal_raise DT_SIGNAL_ACTIVE_IMAGES_CHANGE] s1 else s1))"

definition dt_view_active_images_add :: "int \<Rightarrow> bool \<Rightarrow> darktable_t \<Rightarrow> darktable_t" where
  "dt_view_active_images_add imgid raise s =
     (let s1 = s\<lparr>active_images := active_images s @ [imgid]\<rparr> in
      if raise then emit [Signal_raise DT_SIGNAL_ACTIVE_IMAGES_CHANGE] s1 else s1)"

section \<open>Input dispatch (lines 531--640)\<close>

text \<open>
  The loops walk \<^verbatim>\<open>darktable.lib->plugins\<close> from \<^verbatim>\<open>g_list_last\<close> with
  \<^verbatim>\<open>g_list_previous\<close>: the positions \<open>rev [0..<length ps]\<close>.  Each loop returns
  \<^verbatim>\<open>handled\<close> and the calls it made.
\<close>

definition backwards :: "'a list \<Rightarrow> nat list" where
  "backwards ps = rev [0..<length ps]"

fun mouse_leave_loop :: "dt_lib_module_t list \<Rightarrow> dt_view_t \<Rightarrow> nat list \<Rightarrow> bool \<Rightarrow> bool \<times> event list" where
  "mouse_leave_loop ps v [] handled = (handled, [])"
| "mouse_leave_loop ps v (i # is) handled =
     (let plugin = ps ! i in
      case lib_mouse_leave plugin of
        Some r \<Rightarrow>
          if dt_lib_is_visible_in_view plugin v then
            (let (h, evs) = mouse_leave_loop ps v is (if r \<noteq> 0 then True else handled)
             in (h, Lib_call Mouse_leave i # evs))
          else mouse_leave_loop ps v is handled
      | None \<Rightarrow> mouse_leave_loop ps v is handled)"

definition dt_view_manager_mouse_leave :: "darktable_t \<Rightarrow> darktable_t" where
  "dt_view_manager_mouse_leave s =
     (case current_view s of
        None \<Rightarrow> s
      | Some v \<Rightarrow>
         (let (handled, evs) = mouse_leave_loop (plugins s) v (backwards (plugins s)) False
          in emit (evs @ (if \<not> handled \<and> mouse_leave v
                          then [View_call Mouse_leave (module_name v)] else [])) s))"

fun mouse_moved_loop ::
  "dt_lib_module_t list \<Rightarrow> dt_view_t \<Rightarrow> real \<Rightarrow> real \<Rightarrow> real \<Rightarrow> int \<Rightarrow> nat list \<Rightarrow> bool
     \<Rightarrow> bool \<times> event list" where
  "mouse_moved_loop ps v x y pressure which [] handled = (handled, [])"
| "mouse_moved_loop ps v x y pressure which (i # is) handled =
     (let plugin = ps ! i in
      case lib_mouse_moved plugin of
        Some f \<Rightarrow>
          if dt_lib_is_visible_in_view plugin v then
            (let (h, evs) = mouse_moved_loop ps v x y pressure which is
                              (if f x y pressure which \<noteq> 0 then True else handled)
             in (h, Lib_call Mouse_moved i # evs))
          else mouse_moved_loop ps v x y pressure which is handled
      | None \<Rightarrow> mouse_moved_loop ps v x y pressure which is handled)"

definition dt_view_manager_mouse_moved ::
  "darktable_t \<Rightarrow> real \<Rightarrow> real \<Rightarrow> real \<Rightarrow> int \<Rightarrow> darktable_t" where
  "dt_view_manager_mouse_moved s x y pressure which =
     (case current_view s of
        None \<Rightarrow> s
      | Some v \<Rightarrow>
         (let (handled, evs) =
                mouse_moved_loop (plugins s) v x y pressure which (backwards (plugins s)) False
          in emit (evs @ (if \<not> handled \<and> mouse_moved v
                          then [View_call Mouse_moved (module_name v)] else [])) s))"

fun button_released_loop ::
  "dt_lib_module_t list \<Rightarrow> dt_view_t \<Rightarrow> real \<Rightarrow> real \<Rightarrow> int \<Rightarrow> 32 word \<Rightarrow> nat list \<Rightarrow> bool
     \<Rightarrow> bool \<times> event list" where
  "button_released_loop ps v x y which state [] handled = (handled, [])"
| "button_released_loop ps v x y which state (i # is) handled =
     (let plugin = ps ! i in
      case lib_button_released plugin of
        Some f \<Rightarrow>
          if dt_lib_is_visible_in_view plugin v then
            (let (h, evs) = button_released_loop ps v x y which state is
                              (if f x y which state \<noteq> 0 then True else handled)
             in (h, Lib_call Button_released i # evs))
          else button_released_loop ps v x y which state is handled
      | None \<Rightarrow> button_released_loop ps v x y which state is handled)"

definition dt_view_manager_button_released ::
  "darktable_t \<Rightarrow> real \<Rightarrow> real \<Rightarrow> int \<Rightarrow> 32 word \<Rightarrow> int \<times> darktable_t" where
  "dt_view_manager_button_released s x y which state =
     (case current_view s of
        None \<Rightarrow> (0, s)
      | Some v \<Rightarrow>
         (let (handled, evs) =
                button_released_loop (plugins s) v x y which state (backwards (plugins s)) False
          in if handled then (1, emit evs s)
             else (case button_released v of
                     Some f \<Rightarrow> (0, emit (evs @ [View_call Button_released (module_name v)]) s)
                   | None \<Rightarrow> (0, emit evs s))))"

text \<open>The loop of the press runs \<^verbatim>\<open>while(plugins && !handled)\<close>.\<close>

fun button_pressed_loop ::
  "dt_lib_module_t list \<Rightarrow> dt_view_t \<Rightarrow> real \<Rightarrow> real \<Rightarrow> real \<Rightarrow> int \<Rightarrow> int \<Rightarrow> 32 word
     \<Rightarrow> nat list \<Rightarrow> bool \<Rightarrow> bool \<times> event list" where
  "button_pressed_loop ps v x y pressure which type state [] handled = (handled, [])"
| "button_pressed_loop ps v x y pressure which type state (i # is) handled =
     (if handled then (handled, [])
      else
        (let plugin = ps ! i in
         case lib_button_pressed plugin of
           Some f \<Rightarrow>
             if dt_lib_is_visible_in_view plugin v then
               (let (h, evs) = button_pressed_loop ps v x y pressure which type state is
                                 (if f x y pressure which type state \<noteq> 0 then True else handled)
                in (h, Lib_call Button_pressed i # evs))
             else button_pressed_loop ps v x y pressure which type state is handled
         | None \<Rightarrow> button_pressed_loop ps v x y pressure which type state is handled))"

definition dt_view_manager_button_pressed ::
  "darktable_t \<Rightarrow> real \<Rightarrow> real \<Rightarrow> real \<Rightarrow> int \<Rightarrow> int \<Rightarrow> 32 word \<Rightarrow> int \<times> darktable_t" where
  "dt_view_manager_button_pressed s x y pressure which type state =
     (case current_view s of
        None \<Rightarrow> (0, s)
      | Some v \<Rightarrow>
         (let (handled, evs) =
                button_pressed_loop (plugins s) v x y pressure which type state
                  (backwards (plugins s)) False
          in if handled then (1, emit evs s)
             else (case button_pressed v of
                     Some f \<Rightarrow> (f x y pressure which type state,
                                emit (evs @ [View_call Button_pressed (module_name v)]) s)
                   | None \<Rightarrow> (0, emit evs s))))"

section \<open>The view switch (lines 262--470)\<close>

text \<open>
  Modelled from the spec: \<^verbatim>\<open>dt_control_key_accelerators_on\<close>,
  \<^verbatim>\<open>dt_control_change_cursor\<close>, \<^verbatim>\<open>dt_undo_clear\<close> and the container functions of
  \<^verbatim>\<open>dt_ui\<close> belong to control/, common/undo.c and gui/gtk.c, which are not part of the
  sources at hand.  Section 4.3 of the specification names what they do: steps 1 and 2
  normalise the cursor and the accelerator-enable flag and clear all pending undo
  context, step 3 clears all UI containers, step 5 detaches the widgets of the old view,
  step 7 registers a module's widget into its declared container slot (insertion is
  append-only).  Each is that update of the state.
\<close>

definition dt_control_key_accelerators_on :: "darktable_t \<Rightarrow> darktable_t" where
  "dt_control_key_accelerators_on s = s\<lparr>key_accelerators_on := True\<rparr>"

definition dt_control_change_cursor :: "gdk_cursor \<Rightarrow> darktable_t \<Rightarrow> darktable_t" where
  "dt_control_change_cursor c s = s\<lparr>cursor := c\<rparr>"

definition dt_undo_clear :: "darktable_t \<Rightarrow> darktable_t" where
  "dt_undo_clear s = s\<lparr>undo := []\<rparr>"

definition dt_ui_container_destroy_children :: "nat \<Rightarrow> darktable_t \<Rightarrow> darktable_t" where
  "dt_ui_container_destroy_children l s = s\<lparr>containers := (containers s)[l := []]\<rparr>"

definition dt_ui_container_foreach_remove_child :: "nat \<Rightarrow> darktable_t \<Rightarrow> darktable_t" where
  "dt_ui_container_foreach_remove_child l s = s\<lparr>containers := (containers s)[l := []]\<rparr>"

definition dt_ui_container_add_widget :: "nat \<Rightarrow> widget \<Rightarrow> darktable_t \<Rightarrow> darktable_t" where
  "dt_ui_container_add_widget c w s =
     s\<lparr>containers := (containers s)[c := containers s ! c @ [w]]\<rparr>"

text \<open>\<^verbatim>\<open>dt_view_accels_hide\<close> (lines 2498--2503).\<close>

definition dt_view_accels_hide :: "darktable_t \<Rightarrow> darktable_t" where
  "dt_view_accels_hide s =
     (if accels_window s \<noteq> None \<and> accels_sticky s then s
      else (let s1 = (if accels_window s \<noteq> None then emit [Toolkit ''gtk_widget_destroy''] s
                      else s)
            in s1\<lparr>accels_window := None\<rparr>))"

text \<open>The first statements of \<^verbatim>\<open>dt_view_manager_switch_by_view\<close>, up to the undo list.\<close>

definition switch_prelude :: "darktable_t \<Rightarrow> darktable_t" where
  "switch_prelude s =
     (let s1 = (if \<not> key_accelerators_on s then dt_control_key_accelerators_on s else s);
          s2 = dt_control_change_cursor GDK_LEFT_PTR s1;
          s3 = s2\<lparr>scroll_to := (0, 0)\<rparr>
      in dt_undo_clear s3)"

text \<open>
  The loop over the modules when the program enters nothing: the module at position
  \<open>i\<close> and those after it; the result is the modules as they are left and the calls made.
\<close>

fun leave_plugins_none ::
  "dt_view_t \<Rightarrow> nat \<Rightarrow> dt_lib_module_t list \<Rightarrow> dt_lib_module_t list \<times> event list" where
  "leave_plugins_none old_view i [] = ([], [])"
| "leave_plugins_none old_view i (plugin # ps) =
     (let (ps', evs) = leave_plugins_none old_view (Suc i) ps in
      if dt_lib_is_visible_in_view plugin old_view then
        (plugin\<lparr>data := None, accel_closures := [], widget := None\<rparr> # ps',
         (if view_leave plugin then [Lib_call View_leave i] else [])
         @ [Lib_call Gui_cleanup i, Toolkit ''dt_accel_disconnect_list''] @ evs)
      else (plugin # ps', evs))"

definition switch_to_none :: "dt_view_t option \<Rightarrow> darktable_t \<Rightarrow> darktable_t" where
  "switch_to_none old_view s =
     (let s1 = (case old_view of
                  None \<Rightarrow> s
                | Some old \<Rightarrow>
                   (let sa = emit (if leave old then [View_call Leave (module_name old)] else []) s;
                        (ps, evs) = leave_plugins_none old 0 (plugins sa)
                    in (emit evs sa)\<lparr>plugins := ps\<rparr>));
          s2 = fold dt_ui_container_destroy_children [0..<length (containers s1)] s1;
          s3 = s2\<lparr>current_view := None\<rparr>
      in if accels_window s3 \<noteq> None then dt_view_accels_hide s3 else s3)"

text \<open>The loop over the modules of the view that is left for another view.\<close>

fun leave_plugins ::
  "dt_view_t \<Rightarrow> dt_view_t \<Rightarrow> nat \<Rightarrow> dt_lib_module_t list \<Rightarrow> dt_lib_module_t list \<times> event list" where
  "leave_plugins old_view new_view i [] = ([], [])"
| "leave_plugins old_view new_view i (plugin # ps) =
     (let (ps', evs) = leave_plugins old_view new_view (Suc i) ps in
      if dt_lib_is_visible_in_view plugin old_view then
        (plugin\<lparr>accel_closures := []\<rparr> # ps',
         (if view_leave plugin then [Lib_call View_leave i] else [])
         @ [Toolkit ''dt_accel_disconnect_list''] @ evs)
      else (plugin # ps', evs))"

text \<open>
  The view types of views/view.h that the help links test.
\<close>

definition DT_VIEW_LIGHTTABLE :: "32 word" where "DT_VIEW_LIGHTTABLE = 1"
definition DT_VIEW_DARKROOM :: "32 word" where "DT_VIEW_DARKROOM = 2"

text \<open>
  The loop that adds the modules of the new view to the panels, from the last module
  to the first.  \<open>view_type\<close> is what \<^verbatim>\<open>new_view->view(new_view)\<close> returns.
\<close>

fun attach_plugins :: "dt_view_t \<Rightarrow> 32 word \<Rightarrow> nat list \<Rightarrow> darktable_t \<Rightarrow> darktable_t" where
  "attach_plugins new_view view_type [] s = s"
| "attach_plugins new_view view_type (i # is) s =
     (let plugin = plugins s ! i in
      if dt_lib_is_visible_in_view plugin new_view then
        (let w = expander plugin;
             s1 = emit ([Toolkit ''dt_lib_gui_get_expander'']
                        @ (if lib_connect_key_accels plugin then [Lib_call Connect_key_accels i] else [])
                        @ [Toolkit ''dt_lib_connect_common_accels'']) s;
             w = (if w = None then widget plugin else w);
             s2 = emit [Toolkit ''dt_gui_add_help_link''] s1;
             s3 = (if plugin_name plugin = ''module_toolbox'' \<or> plugin_name plugin = ''view_toolbox''
                   then emit ((if view_type = DT_VIEW_LIGHTTABLE
                               then [Toolkit ''dt_gui_add_help_link''] else [])
                              @ (if view_type = DT_VIEW_DARKROOM
                                 then [Toolkit ''dt_gui_add_help_link''] else [])) s2
                   else s2)
         in attach_plugins new_view view_type is
              (dt_ui_container_add_widget (container plugin) w s3))
      else attach_plugins new_view view_type is s)"

text \<open>The loop that shows or hides the modules of the new view and lets them enter.\<close>

fun show_plugins :: "dt_view_t \<Rightarrow> dt_lib_module_t list \<Rightarrow> nat list \<Rightarrow> event list" where
  "show_plugins new_view ps [] = []"
| "show_plugins new_view ps (i # is) =
     (let plugin = ps ! i in
      if dt_lib_is_visible_in_view plugin new_view then
        (if expandable plugin then [Toolkit ''dt_lib_gui_set_expanded'']
         else if lib_visible plugin then [Toolkit ''gtk_widget_show_all'']
         else [Toolkit ''gtk_widget_hide''])
        @ (if view_enter plugin then [Lib_call View_enter i] else [])
        @ show_plugins new_view ps is
      else show_plugins new_view ps is)"

text \<open>
  The switch from "cleanup current view" on.  \<^verbatim>\<open>new_view->view(new_view)\<close> is called
  without a test, right after \<^verbatim>\<open>vm->current_view = new_view\<close>.  The body of
  \<^verbatim>\<open>dt_view_accels_refresh\<close> only rebuilds a window of the toolkit and is one call here.
\<close>

definition switch_to_view ::
  "dt_view_t option \<Rightarrow> dt_view_t \<Rightarrow> darktable_t \<Rightarrow> fault + (int \<times> darktable_t)" where
  "switch_to_view old_view new_view s =
     (let s1 = (case old_view of
                  None \<Rightarrow> s
                | Some old \<Rightarrow>
                   (let sa = emit ((if leave old then [View_call Leave (module_name old)] else [])
                                   @ [Toolkit ''dt_accel_disconnect_list'']) s;
                        sb = sa\<lparr>view_accel_closures := (view_accel_closures sa)(module_name old := [])\<rparr>;
                        (ps, evs) = leave_plugins old new_view 0 (plugins sb);
                        sc = (emit evs sb)\<lparr>plugins := ps\<rparr>
                    in fold dt_ui_container_foreach_remove_child [0..<length (containers sc)] sc));
          s2 = s1\<lparr>current_view := Some new_view\<rparr>
      in case view new_view of
           None \<Rightarrow> Inl Null_call
         | Some view_type \<Rightarrow>
            (let s3 = emit [Toolkit ''dt_thumbtable_update_accels_connection'',
                            Toolkit ''dt_ui_restore_panels''] s2;
                 s4 = attach_plugins new_view view_type (backwards (plugins s3)) s3;
                 s5 = emit (show_plugins new_view (plugins s4) [0..<length (plugins s4)]) s4;
                 s6 = emit ((if enter new_view then [View_call Enter (module_name new_view)] else [])
                            @ (if connect_key_accels new_view
                               then [View_call Connect_key_accels (module_name new_view)] else [])
                            @ [Toolkit ''dt_ui_update_scrollbars'']
                            @ (if accels_window s5 \<noteq> None \<and> accels_sticky s5
                               then [Toolkit ''dt_view_accels_refresh''] else [])
                            @ [Signal_raise (DT_SIGNAL_VIEWMANAGER_VIEW_CHANGED
                                               (map_option module_name old_view) (module_name new_view)),
                               Signal_raise DT_SIGNAL_CONTROL_LOG_REDRAW]) s5
             in Inr (0, s6)))"

definition dt_view_manager_switch_by_view ::
  "darktable_t \<Rightarrow> dt_view_t option \<Rightarrow> fault + (int \<times> darktable_t)" where
  "dt_view_manager_switch_by_view s nv =
     (let old_view = current_view s;
          s1 = switch_prelude s
      in case nv of
           None \<Rightarrow> Inr (0, switch_to_none old_view s1)
         | Some new_view \<Rightarrow>
            (case try_enter new_view of
               Some error \<Rightarrow>
                 (let s2 = emit [View_call Try_enter (module_name new_view)] s1 in
                  if error \<noteq> 0 then Inr (error, s2) else switch_to_view old_view new_view s2)
             | None \<Rightarrow> switch_to_view old_view new_view s1))"

definition dt_view_manager_switch :: "darktable_t \<Rightarrow> string \<Rightarrow> fault + (int \<times> darktable_t)" where
  "dt_view_manager_switch s view_name =
     (if view_name = [] then dt_view_manager_switch_by_view s None
      else (case find (\<lambda>v. strcmp (module_name v) view_name = 0) (views s) of
              None \<Rightarrow> Inr (1, s)
            | Some new_view \<Rightarrow> dt_view_manager_switch_by_view s (Some new_view)))"

section \<open>Reading the trace\<close>

text \<open>
  The calls of the \<^verbatim>\<open>leave\<close> and \<^verbatim>\<open>enter\<close> hooks of views, and the calls of the
  \<^verbatim>\<open>view_leave\<close> hook of overlay modules.
\<close>

fun lifecycle :: "event \<Rightarrow> bool" where
  "lifecycle (View_call Leave n) = True"
| "lifecycle (View_call Enter n) = True"
| "lifecycle e = False"

fun module_leave :: "event \<Rightarrow> bool" where
  "module_leave (Lib_call View_leave i) = True"
| "module_leave e = False"

section \<open>States for the examples\<close>

text \<open>
  The state \<^verbatim>\<open>dt_view_manager_init\<close> leaves (no current view, no active image) for
  given views and overlay modules, with nothing under the pointer; a view and an overlay
  module that export no optional capability besides \<^verbatim>\<open>name\<close> and \<^verbatim>\<open>view\<close>.
\<close>

definition darktable_init :: "dt_view_t list \<Rightarrow> dt_lib_module_t list \<Rightarrow> darktable_t" where
  "darktable_init vs ps =
     \<lparr>views = vs, current_view = None, view_accel_closures = (\<lambda>_. []), plugins = ps,
      active_images = [], accels_window = None, accels_sticky = False,
      key_accelerators_on = True, cursor = GDK_LEFT_PTR, scroll_to = (0, 0), undo = [],
      containers = [[], [], []], mouse_over_id = -1, selected_collected = [], trace = []\<rparr>"

definition plain_view :: "string \<Rightarrow> dt_view_t" where
  "plain_view n =
     \<lparr>module_name = n, name = Some n, view = Some 4, try_enter = None, enter = False,
      leave = False, connect_key_accels = False, mouse_leave = False, mouse_moved = False,
      button_released = None, button_pressed = None\<rparr>"

definition plain_plugin :: "string \<Rightarrow> dt_lib_module_t" where
  "plain_plugin n =
     \<lparr>plugin_name = n, visible_in_view = (\<lambda>_. True), lib_visible = True, expander = None,
      widget = Some 1, data = Some 1, accel_closures = [], container = 0, expandable = False,
      view_enter = False, view_leave = False, lib_connect_key_accels = False,
      lib_mouse_leave = None, lib_mouse_moved = None, lib_button_released = None,
      lib_button_pressed = None\<rparr>"

text \<open>
  A view with \<^verbatim>\<open>leave\<close>, \<^verbatim>\<open>enter\<close> and input handlers (the button handlers
  return 7); a view with an entry guard that returns \<open>e\<close>; an overlay module, visible in
  every view, whose input handlers return \<open>r\<close>.
\<close>

definition handler_view :: dt_view_t where
  "handler_view = (plain_view ''lighttable'')
     \<lparr>leave := True, enter := True, mouse_moved := True,
      button_released := Some (\<lambda>x y which state. 7),
      button_pressed := Some (\<lambda>x y pressure which type state. 7)\<rparr>"

definition guarded_view :: "int \<Rightarrow> dt_view_t" where
  "guarded_view e = (plain_view ''darkroom'')\<lparr>try_enter := Some e, enter := True, leave := True\<rparr>"

definition handler_plugin :: "string \<Rightarrow> int \<Rightarrow> dt_lib_module_t" where
  "handler_plugin n r = (plain_plugin n)
     \<lparr>view_leave := True,
      lib_mouse_moved := Some (\<lambda>x y pressure which. r),
      lib_button_released := Some (\<lambda>x y which state. r),
      lib_button_pressed := Some (\<lambda>x y pressure which type state. r)\<rparr>"

text \<open>
  Three modules in \<open>handler_view\<close>; in the order of the dispatch (last first) only the
  second reports that it handled the event.  The same view with no module.
\<close>

definition three_modules :: darktable_t where
  "three_modules =
     (darktable_init [handler_view, guarded_view 1]
        [handler_plugin ''a'' 0, handler_plugin ''b'' 1, handler_plugin ''c'' 0])
     \<lparr>current_view := Some handler_view\<rparr>"

definition no_module :: darktable_t where
  "no_module = (darktable_init [handler_view, guarded_view 1] [])\<lparr>current_view := Some handler_view\<rparr>"

text \<open>
  Two view modules as \<^verbatim>\<open>dt_view_load_module\<close> accepts them: one whose library has no
  symbol \<^verbatim>\<open>view\<close> (and has \<^verbatim>\<open>enter\<close>, no entry guard), one whose library has no
  symbol \<^verbatim>\<open>name\<close>.
\<close>

definition typeless_view :: dt_view_t where
  "typeless_view = (plain_view ''map'')\<lparr>view := None, enter := True\<rparr>"

definition nameless_view :: dt_view_t where
  "nameless_view = (plain_view ''map'')\<lparr>name := None\<rparr>"

section \<open>Theorems\<close>

lemma emit_simps [simp]:
  "trace (emit evs s) = trace s @ evs"
  "current_view (emit evs s) = current_view s"
  "plugins (emit evs s) = plugins s"
  "views (emit evs s) = views s"
  "containers (emit evs s) = containers s"
  "accels_window (emit evs s) = accels_window s"
  "accels_sticky (emit evs s) = accels_sticky s"
  "key_accelerators_on (emit evs s) = key_accelerators_on s"
  "cursor (emit evs s) = cursor s"
  "scroll_to (emit evs s) = scroll_to s"
  "undo (emit evs s) = undo s"
  "view_accel_closures (emit evs s) = view_accel_closures s"
  by (simp_all add: emit_def)

lemma emit_Nil [simp]: "emit [] s = s"
  by (simp add: emit_def)

lemma overlay_r1_pos: "0 < dpi \<Longrightarrow> 0 < width \<Longrightarrow> 0 < overlay_r1 dpi width"
  by (simp add: overlay_r1_def DT_PIXEL_APPLY_DPI_def)

subsection \<open>Overlay hit test\<close>

lemmas star_defs =
  DT_VIEW_STAR_1_def DT_VIEW_STAR_2_def DT_VIEW_STAR_3_def DT_VIEW_STAR_4_def DT_VIEW_STAR_5_def

lemma star_x_single: "star_x 1 width r1 i what = (2.5 * real_of_int what + 4.25) * r1"
  by (simp add: star_x_def DT_VIEW_STAR_1_def field_simps)

text \<open>
  In single-image mode every round of the search loop tests the disc of the star
  \<open>what\<close>, so the loop ends with the fifth star or with none.
\<close>

lemma hovered_star_single:
  "active \<noteq> 0 \<Longrightarrow> hovered_star active 1 width r1 y what px py =
     (if (real_of_int px - star_x 1 width r1 what what) * (real_of_int px - star_x 1 width r1 what what)
          + (real_of_int py - y) * (real_of_int py - y) < r1 * r1
      then DT_VIEW_STAR_5 else -1)"
  by (simp add: hovered_star_def star_step_def Let_def star_x_single)

lemma process_star_single:
  assumes "active \<noteq> 0" "DT_VIEW_STAR_1 \<le> what" "what \<le> DT_VIEW_STAR_5"
  shows "dt_view_process_image_over dpi ext what active width height 1 px py =
     (let r1 = overlay_r1 dpi width; x = star_x 1 width r1 what what; y = overlay_y ext r1 height 1 in
      if (real_of_int px - x) * (real_of_int px - x) + (real_of_int py - y) * (real_of_int py - y) < r1 * r1
      then 1 else 0)"
  using assms
  by (simp add: dt_view_process_image_over_def hovered_star_single Let_def) (simp add: star_defs)

lemma off_centre:
  fixes r :: real
  assumes "0 < r" "d = c * r" "1 \<le> c * c"
  shows "\<not> d * d + 0 < r * r"
proof -
  have "0 < r * r" using assms(1) by simp
  then have "r * r * 1 \<le> r * r * (c * c)" using assms(3) by (intro mult_left_mono) auto
  moreover have "d * d = r * r * (c * c)" using assms(2) by (simp add: algebra_simps)
  ultimately show ?thesis by simp
qed

text \<open>
  C8.  Single-image mode (\<open>zoom = 1\<close>), a thumbnail of positive width, a positive DPI
  factor, the control active: with the pointer exactly at the centre of the third star
  (the centre the code computes, \<open>star_x\<close> and \<open>overlay_y\<close>), the check for star 3
  reports hovering, and the checks for the stars 1, 2, 4 and 5 at the same pointer
  position report none.
\<close>

theorem star_3_centre_hovers_only_star_3:
  assumes "0 < dpi" "0 < width" "active \<noteq> 0"
    and px: "real_of_int px = star_x 1 width (overlay_r1 dpi width) DT_VIEW_STAR_3 DT_VIEW_STAR_3"
    and py: "real_of_int py = overlay_y ext (overlay_r1 dpi width) height 1"
  shows "dt_view_process_image_over dpi ext DT_VIEW_STAR_3 active width height 1 px py = 1
       \<and> dt_view_process_image_over dpi ext DT_VIEW_STAR_1 active width height 1 px py = 0
       \<and> dt_view_process_image_over dpi ext DT_VIEW_STAR_2 active width height 1 px py = 0
       \<and> dt_view_process_image_over dpi ext DT_VIEW_STAR_4 active width height 1 px py = 0
       \<and> dt_view_process_image_over dpi ext DT_VIEW_STAR_5 active width height 1 px py = 0"
proof -
  define r where "r = overlay_r1 dpi width"
  have r: "0 < r" using assms by (simp add: overlay_r1_pos r_def)
  have h3: "dt_view_process_image_over dpi ext DT_VIEW_STAR_3 active width height 1 px py = 1"
    using assms(3) r by (simp add: process_star_single px py Let_def star_defs flip: r_def)
  have d1: "real_of_int px - star_x 1 width r DT_VIEW_STAR_1 DT_VIEW_STAR_1 = 5 * r"
   and d2: "real_of_int px - star_x 1 width r DT_VIEW_STAR_2 DT_VIEW_STAR_2 = 2.5 * r"
   and d4: "real_of_int px - star_x 1 width r DT_VIEW_STAR_4 DT_VIEW_STAR_4 = (-2.5) * r"
   and d5: "real_of_int px - star_x 1 width r DT_VIEW_STAR_5 DT_VIEW_STAR_5 = (-5) * r"
    by (simp_all add: px star_x_single star_defs algebra_simps flip: r_def)
  have h1: "dt_view_process_image_over dpi ext DT_VIEW_STAR_1 active width height 1 px py = 0"
    using assms(3) off_centre [OF r d1]
    by (simp add: process_star_single py Let_def star_defs flip: r_def)
  have h2: "dt_view_process_image_over dpi ext DT_VIEW_STAR_2 active width height 1 px py = 0"
    using assms(3) off_centre [OF r d2]
    by (simp add: process_star_single py Let_def star_defs flip: r_def)
  have h4: "dt_view_process_image_over dpi ext DT_VIEW_STAR_4 active width height 1 px py = 0"
    using assms(3) off_centre [OF r d4]
    by (simp add: process_star_single py Let_def star_defs flip: r_def)
  have h5: "dt_view_process_image_over dpi ext DT_VIEW_STAR_5 active width height 1 px py = 0"
    using assms(3) off_centre [OF r d5]
    by (simp add: process_star_single py Let_def star_defs flip: r_def)
  show ?thesis using h3 h1 h2 h4 h5 by simp
qed

lemma overlay_r1_example: "overlay_r1 (2/5) 100 = 4"
  by (simp add: overlay_r1_def DT_PIXEL_APPLY_DPI_def)

text \<open>
  A thumbnail 100 pixels wide at DPI factor 2/5: \<open>r1 = 4\<close>, the third star is centred
  at (47, 36).
\<close>

theorem star_3_centre_witness:
  "(0::real) < 2/5 \<and> (0::int) < 100
   \<and> real_of_int 47 = star_x 1 100 (overlay_r1 (2/5) 100) DT_VIEW_STAR_3 DT_VIEW_STAR_3
   \<and> real_of_int 36 = overlay_y False (overlay_r1 (2/5) 100) 80 1
   \<and> dt_view_process_image_over (2/5) False DT_VIEW_STAR_3 1 100 80 1 47 36 = 1
   \<and> dt_view_process_image_over (2/5) False DT_VIEW_STAR_1 1 100 80 1 47 36 = 0
   \<and> dt_view_process_image_over (2/5) False DT_VIEW_STAR_2 1 100 80 1 47 36 = 0
   \<and> dt_view_process_image_over (2/5) False DT_VIEW_STAR_4 1 100 80 1 47 36 = 0
   \<and> dt_view_process_image_over (2/5) False DT_VIEW_STAR_5 1 100 80 1 47 36 = 0"
  using star_3_centre_hovers_only_star_3
          [where dpi = "2/5" and width = 100 and active = 1 and px = 47 and ext = False
             and height = 80 and py = 36]
  by (simp add: overlay_r1_example star_x_single overlay_y_def DT_VIEW_STAR_3_def)

text \<open>
  C9.  For a thumbnail whose width is at most \<^verbatim>\<open>DECORATION_SIZE_LIMIT\<close>, whatever the
  pointer position, the height, the zoom and the overlay mode,
  \<^verbatim>\<open>dt_view_guess_image_over\<close> returns \<^verbatim>\<open>DT_VIEW_DESERT\<close>: no glyph of any kind is
  hovered.
\<close>

theorem small_thumbnail_has_no_glyph:
  "width \<le> DECORATION_SIZE_LIMIT \<Longrightarrow>
   dt_view_guess_image_over show_overlays dpi ext width height zoom px py = DT_VIEW_DESERT"
  by (simp add: dt_view_guess_image_over_def Let_def)

text \<open>Width 40, overlays always shown, grid mode.\<close>

theorem small_thumbnail_witness:
  "(40::int) \<le> DECORATION_SIZE_LIMIT
   \<and> dt_view_guess_image_over True 1 False 40 40 2 3 35 = DT_VIEW_DESERT"
  using small_thumbnail_has_no_glyph
          [where width = 40 and show_overlays = True and dpi = 1 and ext = False
             and height = 40 and zoom = 2 and px = 3 and py = 35]
  by (simp add: DECORATION_SIZE_LIMIT_def)

subsection \<open>Active images\<close>

text \<open>
  C10.  Resetting the active images when there is none changes nothing at all, whatever
  \<open>raise\<close> is; in every case the set is empty afterwards, and the signal is raised only
  when \<open>raise\<close> is set and the set held an image.
\<close>

theorem active_images_reset_of_empty_is_noop:
  "(active_images s = [] \<longrightarrow> dt_view_active_images_reset raise s = s)
   \<and> active_images (dt_view_active_images_reset raise s) = []
   \<and> trace (dt_view_active_images_reset raise s) =
       trace s @ (if raise \<and> active_images s \<noteq> []
                  then [Signal_raise DT_SIGNAL_ACTIVE_IMAGES_CHANGE] else [])"
  by (cases "active_images s") (simp_all add: dt_view_active_images_reset_def emit_def Let_def)

theorem active_images_reset_witness:
  "active_images (darktable_init [] []) = []
   \<and> dt_view_active_images_reset True (darktable_init [] []) = darktable_init [] []
   \<and> trace (dt_view_active_images_reset True (darktable_init [] [])) = []"
  using active_images_reset_of_empty_is_noop [of "darktable_init [] []" True]
  by (simp add: darktable_init_def)

text \<open>
  C1, as the claim states it, fails: with image 5 under the pointer and the active
  images [7], the image to act on is 5.
\<close>

theorem image_to_act_on_counterexample:
  "active_images ((darktable_init [] [])\<lparr>active_images := [7], mouse_over_id := 5\<rparr>) \<noteq> []
   \<and> dt_view_get_image_to_act_on ((darktable_init [] [])\<lparr>active_images := [7], mouse_over_id := 5\<rparr>) = 5
   \<and> hd (active_images ((darktable_init [] [])\<lparr>active_images := [7], mouse_over_id := 5\<rparr>)) = 7"
  by (simp add: dt_view_get_image_to_act_on_def darktable_init_def)

text \<open>
  C1, amended.  With a non-empty set of active images, the image to act on is the image
  under the pointer when there is one (its id is positive), and the first active image
  otherwise.
\<close>

theorem image_to_act_on_hover_then_active:
  "active_images s \<noteq> [] \<Longrightarrow>
   dt_view_get_image_to_act_on s =
     (if mouse_over_id s > 0 then mouse_over_id s else hd (active_images s))"
  by (cases "active_images s") (simp_all add: dt_view_get_image_to_act_on_def)

theorem image_to_act_on_witness:
  "active_images ((darktable_init [] [])\<lparr>active_images := [7, 9], selected_collected := [3]\<rparr>) \<noteq> []
   \<and> dt_view_get_image_to_act_on
       ((darktable_init [] [])\<lparr>active_images := [7, 9], selected_collected := [3]\<rparr>) = 7"
  using image_to_act_on_hover_then_active
          [of "(darktable_init [] [])\<lparr>active_images := [7, 9], selected_collected := [3]\<rparr>"]
  by (simp add: darktable_init_def)


subsection \<open>Input dispatch\<close>

lemma three_modules_fields:
  "current_view three_modules = Some handler_view"
  "trace three_modules = []"
  "plugins three_modules = [handler_plugin ''a'' 0, handler_plugin ''b'' 1, handler_plugin ''c'' 0]"
  by (simp_all add: three_modules_def darktable_init_def)

lemma example_view_fields:
  "module_name handler_view = ''lighttable''" "leave handler_view" "mouse_moved handler_view"
  "module_name (guarded_view e) = ''darkroom''" "try_enter (guarded_view e) = Some e"
  "view (guarded_view e) = Some 4" "enter (guarded_view e)"
  by (simp_all add: handler_view_def guarded_view_def plain_view_def)

lemma handler_plugin_fields:
  "dt_lib_is_visible_in_view (handler_plugin n r) v"
  "view_leave (handler_plugin n r)"
  "lib_mouse_moved (handler_plugin n r) = Some (\<lambda>x y pressure which. r)"
  by (simp_all add: handler_plugin_def plain_plugin_def dt_lib_is_visible_in_view_def)

lemmas example_defs = three_modules_def no_module_def darktable_init_def handler_view_def
  guarded_view_def handler_plugin_def plain_view_def plain_plugin_def

text \<open>
  C2.  The press stops at the first module that reports handling and returns what the
  view's handler returns when no module handled the event; the release does neither.
  In \<open>three_modules\<close> the dispatch order is 2, 1, 0 and only module 1 handles: the press
  calls 2 and 1, the release calls 2, 1 and 0.  In \<open>no_module\<close> the view's handler
  returns 7: the press returns 7, the release returns 0.
\<close>

theorem button_released_is_not_first_responder:
  "fst (dt_view_manager_button_pressed three_modules 0 0 0 1 0 0) = 1
   \<and> trace (snd (dt_view_manager_button_pressed three_modules 0 0 0 1 0 0)) =
       [Lib_call Button_pressed 2, Lib_call Button_pressed 1]
   \<and> fst (dt_view_manager_button_released three_modules 0 0 1 0) = 1
   \<and> trace (snd (dt_view_manager_button_released three_modules 0 0 1 0)) =
       [Lib_call Button_released 2, Lib_call Button_released 1, Lib_call Button_released 0]
   \<and> fst (dt_view_manager_button_pressed no_module 0 0 0 1 0 0) = 7
   \<and> trace (snd (dt_view_manager_button_pressed no_module 0 0 0 1 0 0)) =
       [View_call Button_pressed ''lighttable'']
   \<and> fst (dt_view_manager_button_released no_module 0 0 1 0) = 0
   \<and> trace (snd (dt_view_manager_button_released no_module 0 0 1 0)) =
       [View_call Button_released ''lighttable'']"
  by (simp add: dt_view_manager_button_pressed_def dt_view_manager_button_released_def
      backwards_def example_defs dt_lib_is_visible_in_view_def emit_def Let_def)

lemma set_backwards: "set (backwards ps) = {..<length ps}"
  by (auto simp: backwards_def)

lemma mouse_moved_loop_sem:
  "mouse_moved_loop ps v x y pressure which is h =
     (h \<or> (\<exists>i\<in>set is. dt_lib_is_visible_in_view (ps ! i) v
              \<and> (\<exists>f. lib_mouse_moved (ps ! i) = Some f \<and> f x y pressure which \<noteq> 0)),
      map (Lib_call Mouse_moved)
        [i \<leftarrow> is. lib_mouse_moved (ps ! i) \<noteq> None \<and> dt_lib_is_visible_in_view (ps ! i) v])"
proof (induction "is" arbitrary: h)
  case Nil
  then show ?case by simp
next
  case (Cons i "is")
  show ?case
  proof (cases "lib_mouse_moved (ps ! i)")
    case None
    then show ?thesis by (simp add: Cons.IH Let_def)
  next
    case (Some f)
    then show ?thesis by (auto simp: Cons.IH Let_def)
  qed
qed

text \<open>
  C7.  With an active view \<open>v\<close>, a pointer motion calls the moved-handler of every
  module that has one and is visible in \<open>v\<close>, from the last module to the first,
  whatever the handlers return; the moved-handler of the view is called after them
  exactly when the view has one and no visible module's handler returned non-zero.
\<close>

theorem mouse_moved_reaches_every_module:
  assumes "current_view s = Some v"
  shows "trace (dt_view_manager_mouse_moved s x y pressure which) =
           trace s
           @ map (Lib_call Mouse_moved)
               [i \<leftarrow> backwards (plugins s).
                  lib_mouse_moved (plugins s ! i) \<noteq> None \<and> dt_lib_is_visible_in_view (plugins s ! i) v]
           @ (if mouse_moved v
                 \<and> \<not> (\<exists>i<length (plugins s). dt_lib_is_visible_in_view (plugins s ! i) v
                        \<and> (\<exists>f. lib_mouse_moved (plugins s ! i) = Some f \<and> f x y pressure which \<noteq> 0))
              then [View_call Mouse_moved (module_name v)] else [])"
  using assms
  by (auto simp: dt_view_manager_mouse_moved_def mouse_moved_loop_sem emit_def set_backwards)

text \<open>
  Three visible modules with a moved-handler; module 1 claims the motion, and module 0,
  which comes after it, is still called; the view's handler is not.
\<close>

theorem mouse_moved_witness:
  "current_view three_modules = Some handler_view
   \<and> trace (dt_view_manager_mouse_moved three_modules 0 0 0 1) =
       [Lib_call Mouse_moved 2, Lib_call Mouse_moved 1, Lib_call Mouse_moved 0]"
proof -
  have "\<exists>i<length (plugins three_modules).
          dt_lib_is_visible_in_view (plugins three_modules ! i) handler_view
          \<and> (\<exists>f. lib_mouse_moved (plugins three_modules ! i) = Some f \<and> f 0 0 0 1 \<noteq> 0)"
    by (rule exI [of _ 1]) (simp add: three_modules_fields handler_plugin_fields)
  then show ?thesis
    using mouse_moved_reaches_every_module [OF three_modules_fields(1), of 0 0 0 1]
    by (simp add: three_modules_fields handler_plugin_fields backwards_def)
qed

text \<open>
  The two button dispatchers in general.  The press calls the eligible modules (those
  with a handler, visible in the view) in dispatch order up to and including the first
  whose handler returns non-zero, and then returns 1; when none does, it returns what the
  view's handler returns (0 without a handler).  The release calls every eligible
  module, returns 1 when one of them returned non-zero, and otherwise calls the view's
  handler and returns 0.
\<close>

lemma button_pressed_loop_sem:
  "button_pressed_loop ps v x y pressure which type state is h =
     (if h then (True, [])
      else (let elig = [i \<leftarrow> is. lib_button_pressed (ps ! i) \<noteq> None
                                \<and> dt_lib_is_visible_in_view (ps ! i) v];
                quiet = (\<lambda>i. \<forall>f. lib_button_pressed (ps ! i) = Some f
                               \<longrightarrow> f x y pressure which type state = 0)
            in (\<exists>i\<in>set elig. \<not> quiet i,
                map (Lib_call Button_pressed)
                  (takeWhile quiet elig @ take 1 (dropWhile quiet elig)))))"
proof (induction "is" arbitrary: h)
  case Nil
  then show ?case by simp
next
  case (Cons i "is")
  show ?case
  proof (cases "lib_button_pressed (ps ! i)")
    case None
    then show ?thesis by (simp add: Cons.IH Let_def)
  next
    case (Some f)
    then show ?thesis by (auto simp: Cons.IH Let_def)
  qed
qed

lemma button_pressed_first_responder:
  assumes "current_view s = Some v"
  shows "dt_view_manager_button_pressed s x y pressure which type state =
     (let elig = [i \<leftarrow> backwards (plugins s). lib_button_pressed (plugins s ! i) \<noteq> None
                                \<and> dt_lib_is_visible_in_view (plugins s ! i) v];
          quiet = (\<lambda>i. \<forall>f. lib_button_pressed (plugins s ! i) = Some f
                               \<longrightarrow> f x y pressure which type state = 0)
      in if \<exists>i\<in>set elig. \<not> quiet i
         then (1, emit (map (Lib_call Button_pressed)
                          (takeWhile quiet elig @ take 1 (dropWhile quiet elig))) s)
         else (case button_pressed v of
                 Some f \<Rightarrow> (f x y pressure which type state,
                            emit (map (Lib_call Button_pressed) elig
                                  @ [View_call Button_pressed (module_name v)]) s)
               | None \<Rightarrow> (0, emit (map (Lib_call Button_pressed) elig) s)))"
proof -
  define elig where "elig = [i \<leftarrow> backwards (plugins s). lib_button_pressed (plugins s ! i) \<noteq> None
                                \<and> dt_lib_is_visible_in_view (plugins s ! i) v]"
  define quiet where "quiet = (\<lambda>i. \<forall>f. lib_button_pressed (plugins s ! i) = Some f
                               \<longrightarrow> f x y pressure which type state = 0)"
  have loop: "button_pressed_loop (plugins s) v x y pressure which type state
                (backwards (plugins s)) False =
              (\<exists>i\<in>set elig. \<not> quiet i,
               map (Lib_call Button_pressed) (takeWhile quiet elig @ take 1 (dropWhile quiet elig)))"
    unfolding button_pressed_loop_sem elig_def quiet_def Let_def by simp
  have q: "takeWhile quiet elig @ take 1 (dropWhile quiet elig) = elig"
    if "\<not> (\<exists>i\<in>set elig. \<not> quiet i)"
  proof -
    from that have a: "takeWhile quiet elig = elig" and b: "dropWhile quiet elig = []"
      by simp_all
    show ?thesis unfolding a b by simp
  qed
  have "dt_view_manager_button_pressed s x y pressure which type state =
     (if \<exists>i\<in>set elig. \<not> quiet i
         then (1, emit (map (Lib_call Button_pressed)
                          (takeWhile quiet elig @ take 1 (dropWhile quiet elig))) s)
         else (case button_pressed v of
                 Some f \<Rightarrow> (f x y pressure which type state,
                            emit (map (Lib_call Button_pressed) elig
                                  @ [View_call Button_pressed (module_name v)]) s)
               | None \<Rightarrow> (0, emit (map (Lib_call Button_pressed) elig) s)))"
  proof (cases "\<exists>i\<in>set elig. \<not> quiet i")
    case True
    then show ?thesis
      by (simp add: dt_view_manager_button_pressed_def assms loop)
  next
    case False
    then show ?thesis
      using q [OF False] 
      by (simp add: dt_view_manager_button_pressed_def assms loop split: option.splits)
  qed
  then show ?thesis unfolding elig_def quiet_def Let_def .
qed

lemma button_released_loop_sem:
  "button_released_loop ps v x y which state is h =
     (h \<or> (\<exists>i\<in>set is. dt_lib_is_visible_in_view (ps ! i) v
              \<and> (\<exists>f. lib_button_released (ps ! i) = Some f \<and> f x y which state \<noteq> 0)),
      map (Lib_call Button_released)
        [i \<leftarrow> is. lib_button_released (ps ! i) \<noteq> None \<and> dt_lib_is_visible_in_view (ps ! i) v])"
proof (induction "is" arbitrary: h)
  case Nil
  then show ?case by simp
next
  case (Cons i "is")
  show ?case
  proof (cases "lib_button_released (ps ! i)")
    case None
    then show ?thesis by (simp add: Cons.IH Let_def)
  next
    case (Some f)
    then show ?thesis by (auto simp: Cons.IH Let_def)
  qed
qed

lemma button_released_broadcast:
  assumes "current_view s = Some v"
  shows "trace (snd (dt_view_manager_button_released s x y which state)) =
           trace s
           @ map (Lib_call Button_released)
               [i \<leftarrow> backwards (plugins s).
                  lib_button_released (plugins s ! i) \<noteq> None
                  \<and> dt_lib_is_visible_in_view (plugins s ! i) v]
           @ (if button_released v \<noteq> None
                 \<and> \<not> (\<exists>i<length (plugins s). dt_lib_is_visible_in_view (plugins s ! i) v
                        \<and> (\<exists>f. lib_button_released (plugins s ! i) = Some f \<and> f x y which state \<noteq> 0))
              then [View_call Button_released (module_name v)] else [])"
    and "fst (dt_view_manager_button_released s x y which state) =
           (if \<exists>i<length (plugins s). dt_lib_is_visible_in_view (plugins s ! i) v
                        \<and> (\<exists>f. lib_button_released (plugins s ! i) = Some f \<and> f x y which state \<noteq> 0)
            then 1 else 0)"
  using assms
  by (auto simp: dt_view_manager_button_released_def button_released_loop_sem emit_def set_backwards
      split: option.splits)


subsection \<open>The view switch\<close>

lemma switch_prelude_simps [simp]:
  "trace (switch_prelude s) = trace s"
  "current_view (switch_prelude s) = current_view s"
  "plugins (switch_prelude s) = plugins s"
  "views (switch_prelude s) = views s"
  "containers (switch_prelude s) = containers s"
  "accels_window (switch_prelude s) = accels_window s"
  "accels_sticky (switch_prelude s) = accels_sticky s"
  "view_accel_closures (switch_prelude s) = view_accel_closures s"
  "key_accelerators_on (switch_prelude s) = True"
  "cursor (switch_prelude s) = GDK_LEFT_PTR"
  "scroll_to (switch_prelude s) = (0, 0)"
  "undo (switch_prelude s) = []"
  by (simp_all add: switch_prelude_def dt_control_key_accelerators_on_def
      dt_control_change_cursor_def dt_undo_clear_def Let_def)

text \<open>
  C3.  When the entry guard of the new view \<open>B\<close> returns a non-zero value \<open>e\<close>, the
  switch returns \<open>e\<close>, the current view is what it was, and the only hook called is
  the guard itself: no \<^verbatim>\<open>leave\<close> or \<^verbatim>\<open>enter\<close> of any view, no hook of a module; the
  modules, the views and the containers are untouched.
\<close>

theorem switch_refused:
  assumes "try_enter B = Some e" and "e \<noteq> 0"
  shows "\<exists>s'. dt_view_manager_switch_by_view s (Some B) = Inr (e, s')
          \<and> current_view s' = current_view s
          \<and> trace s' = trace s @ [View_call Try_enter (module_name B)]
          \<and> plugins s' = plugins s \<and> views s' = views s
          \<and> view_accel_closures s' = view_accel_closures s
          \<and> containers s' = containers s"
  using assms by (simp add: dt_view_manager_switch_by_view_def Let_def)

theorem switch_refused_witness:
  "try_enter (guarded_view 1) = Some 1 \<and> (1::int) \<noteq> 0
   \<and> (\<exists>s'. dt_view_manager_switch_by_view three_modules (Some (guarded_view 1)) = Inr (1, s')
          \<and> current_view s' = Some handler_view
          \<and> trace s' = [View_call Try_enter ''darkroom''])"
proof -
  have h: "try_enter (guarded_view 1) = Some 1" "(1::int) \<noteq> 0"
    by (simp_all add: example_view_fields)
  from switch_refused [OF h, of three_modules] show ?thesis
    using h by (auto simp: three_modules_fields example_view_fields)
qed

lemma prelude_idem:
  "key_accelerators_on s \<Longrightarrow> cursor s = GDK_LEFT_PTR \<Longrightarrow> scroll_to s = (0,0) \<Longrightarrow> undo s = []
   \<Longrightarrow> switch_prelude s = s"
  by (simp add: switch_prelude_def dt_control_key_accelerators_on_def
      dt_control_change_cursor_def dt_undo_clear_def Let_def)

lemma destroy_fold_aux:
  "n \<le> length (containers s) \<Longrightarrow>
   fold dt_ui_container_destroy_children [0..<n] s =
     s\<lparr>containers := replicate n [] @ drop n (containers s)\<rparr>"
proof (induction n)
  case 0
  then show ?case by simp
next
  case (Suc n)
  then have n: "n < length (containers s)" by simp
  have d: "drop n (containers s) = containers s ! n # drop (Suc n) (containers s)"
    using Cons_nth_drop_Suc [OF n] by simp
  have "(replicate n [] @ drop n (containers s))[n := []] = replicate (Suc n) [] @ drop (Suc n) (containers s)"
    by (simp add: list_update_append d replicate_append_same)
  with Suc show ?case
    by (simp add: dt_ui_container_destroy_children_def)
qed

lemma destroy_fold:
  "fold dt_ui_container_destroy_children [0..<length (containers s)] s =
     s\<lparr>containers := replicate (length (containers s)) []\<rparr>"
  by (simp add: destroy_fold_aux)

lemma remove_fold:
  "fold dt_ui_container_foreach_remove_child [0..<length (containers s)] s =
     s\<lparr>containers := replicate (length (containers s)) []\<rparr>"
proof -
  have "dt_ui_container_foreach_remove_child = dt_ui_container_destroy_children"
    by (simp add: fun_eq_iff dt_ui_container_foreach_remove_child_def dt_ui_container_destroy_children_def)
  then show ?thesis by (simp add: destroy_fold)
qed

lemma leave_plugins_none_Cons:
  "fst (leave_plugins_none old i (p # ps)) =
     (if dt_lib_is_visible_in_view p old
      then p\<lparr>data := None, accel_closures := [], widget := None\<rparr>
      else p) # fst (leave_plugins_none old (Suc i) ps)"
  "snd (leave_plugins_none old i (p # ps)) =
     (if dt_lib_is_visible_in_view p old
      then (if view_leave p then [Lib_call View_leave i] else [])
           @ [Lib_call Gui_cleanup i, Toolkit ''dt_accel_disconnect_list'']
      else []) @ snd (leave_plugins_none old (Suc i) ps)"
  by (simp_all add: Let_def case_prod_beta)

lemma leave_plugins_Cons:
  "fst (leave_plugins old new i (p # ps)) =
     (if dt_lib_is_visible_in_view p old then p\<lparr>accel_closures := []\<rparr> else p)
     # fst (leave_plugins old new (Suc i) ps)"
  "snd (leave_plugins old new i (p # ps)) =
     (if dt_lib_is_visible_in_view p old
      then (if view_leave p then [Lib_call View_leave i] else [])
           @ [Toolkit ''dt_accel_disconnect_list'']
      else []) @ snd (leave_plugins old new (Suc i) ps)"
  by (simp_all add: Let_def case_prod_beta)

lemma lifecycle_leave_plugins_none [simp]:
  "filter lifecycle (snd (leave_plugins_none old i ps)) = []"
  by (induction ps arbitrary: i) (simp_all add: leave_plugins_none_Cons del: leave_plugins_none.simps(2))

lemma lifecycle_leave_plugins [simp]:
  "filter lifecycle (snd (leave_plugins old new i ps)) = []"
  by (induction ps arbitrary: i) (simp_all add: leave_plugins_Cons del: leave_plugins.simps(2))

lemma lifecycle_show_plugins [simp]:
  "filter lifecycle (show_plugins nv ps is) = []"
  by (induction "is") (simp_all add: Let_def)

lemma module_leave_leave_plugins_none:
  "filter module_leave (snd (leave_plugins_none old i ps)) =
     map (Lib_call View_leave)
       [j \<leftarrow> [i..<i + length ps].
          dt_lib_is_visible_in_view (ps ! (j - i)) old \<and> view_leave (ps ! (j - i))]"
proof (induction ps arbitrary: i)
  case Nil
  then show ?case by simp
next
  case (Cons p ps)
  have up: "[i..<i + length (p # ps)] = i # [Suc i..<Suc i + length ps]"
    by (simp add: upt_conv_Cons del: upt_Suc)
  have tl: "[j \<leftarrow> [Suc i..<Suc i + length ps].
              dt_lib_is_visible_in_view ((p # ps) ! (j - i)) old \<and> view_leave ((p # ps) ! (j - i))]
          = [j \<leftarrow> [Suc i..<Suc i + length ps].
              dt_lib_is_visible_in_view (ps ! (j - Suc i)) old \<and> view_leave (ps ! (j - Suc i))]"
    by (rule filter_cong) (auto simp: nth_Cons' Suc_diff_Suc)
  show ?case
    using tl unfolding up
    by (simp add: leave_plugins_none_Cons Cons.IH [of "Suc i"]
        del: leave_plugins_none.simps(2) upt_Suc)
qed

lemma attach_plugins_sem:
  "current_view (attach_plugins nv vt is s) = current_view s
   \<and> plugins (attach_plugins nv vt is s) = plugins s
   \<and> accels_window (attach_plugins nv vt is s) = accels_window s
   \<and> accels_sticky (attach_plugins nv vt is s) = accels_sticky s
   \<and> (\<exists>evs. trace (attach_plugins nv vt is s) = trace s @ evs \<and> filter lifecycle evs = [])"
proof (induction "is" arbitrary: s)
  case Nil
  then show ?case by simp
next
  case (Cons i "is")
  show ?case
  proof (cases "dt_lib_is_visible_in_view (plugins s ! i) nv")
    case False
    then show ?thesis using Cons.IH [of s] by (simp add: Let_def)
  next
    case True
    define s' where "s' = dt_ui_container_add_widget (container (plugins s ! i))
       (if expander (plugins s ! i) = None then widget (plugins s ! i) else expander (plugins s ! i))
       (let s2 = emit [Toolkit ''dt_gui_add_help_link'']
                  (emit ([Toolkit ''dt_lib_gui_get_expander'']
                        @ (if lib_connect_key_accels (plugins s ! i) then [Lib_call Connect_key_accels i] else [])
                        @ [Toolkit ''dt_lib_connect_common_accels'']) s)
        in if plugin_name (plugins s ! i) = ''module_toolbox'' \<or> plugin_name (plugins s ! i) = ''view_toolbox''
           then emit ((if vt = DT_VIEW_LIGHTTABLE then [Toolkit ''dt_gui_add_help_link''] else [])
                      @ (if vt = DT_VIEW_DARKROOM then [Toolkit ''dt_gui_add_help_link''] else [])) s2
           else s2)"
    have step: "attach_plugins nv vt (i # is) s = attach_plugins nv vt is s'"
      using True by (simp add: Let_def s'_def)
    have f: "current_view s' = current_view s" "plugins s' = plugins s"
      "accels_window s' = accels_window s" "accels_sticky s' = accels_sticky s"
      by (simp_all add: s'_def dt_ui_container_add_widget_def Let_def)
    have t: "\<exists>evs. trace s' = trace s @ evs \<and> filter lifecycle evs = []"
      by (simp add: s'_def dt_ui_container_add_widget_def Let_def)
    from t obtain e1 where e1: "trace s' = trace s @ e1" "filter lifecycle e1 = []" by blast
    from Cons.IH [of s'] obtain e2 where
      e2: "trace (attach_plugins nv vt is s') = trace s' @ e2" "filter lifecycle e2 = []" by blast
    have "trace (attach_plugins nv vt is s') = trace s @ (e1 @ e2) \<and> filter lifecycle (e1 @ e2) = []"
      using e1 e2 by simp
    then show ?thesis using Cons.IH [of s'] f unfolding step by metis
  qed
qed

lemma length_leave_plugins [simp]:
  "length (fst (leave_plugins old new i ps)) = length ps"
  by (induction ps arbitrary: i) (simp_all add: leave_plugins_Cons del: leave_plugins.simps(2))

text \<open>
  The switch to a view \<open>B\<close> that exports \<^verbatim>\<open>view\<close> and has no entry guard, or a guard
  that returns zero: it returns 0 with \<open>B\<close> as the current view, and the calls of
  \<^verbatim>\<open>leave\<close> and \<^verbatim>\<open>enter\<close> hooks it makes are exactly the \<^verbatim>\<open>leave\<close> of the old view, if
  there is an old view and it has the hook, then the \<^verbatim>\<open>enter\<close> of \<open>B\<close>, if \<open>B\<close> has
  the hook; each once, in this order.
\<close>

lemma switch_leaves_then_enters:
  assumes guard: "try_enter B = None \<or> try_enter B = Some 0"
    and vt: "view B \<noteq> None"
  shows "\<exists>s' evs. dt_view_manager_switch_by_view s (Some B) = Inr (0, s')
          \<and> current_view s' = Some B
          \<and> trace s' = trace s @ evs
          \<and> filter lifecycle evs =
               (case current_view s of
                  Some A \<Rightarrow> if leave A then [View_call Leave (module_name A)] else []
                | None \<Rightarrow> [])
               @ (if enter B then [View_call Enter (module_name B)] else [])"
proof -
  from vt obtain t where t: "view B = Some t" by blast
  have main: "\<exists>s' evs. switch_to_view (current_view s) B s0 = Inr (0, s')
          \<and> current_view s' = Some B
          \<and> trace s' = trace s0 @ evs
          \<and> filter lifecycle evs =
               (case current_view s of
                  Some A \<Rightarrow> if leave A then [View_call Leave (module_name A)] else []
                | None \<Rightarrow> [])
               @ (if enter B then [View_call Enter (module_name B)] else [])" for s0
  proof -
    define s1 where "s1 = (case current_view s of
                  None \<Rightarrow> s0
                | Some old \<Rightarrow>
                   (let sa = emit ((if leave old then [View_call Leave (module_name old)] else [])
                                   @ [Toolkit ''dt_accel_disconnect_list'']) s0;
                        sb = sa\<lparr>view_accel_closures := (view_accel_closures sa)(module_name old := [])\<rparr>;
                        (ps, evs) = leave_plugins old B 0 (plugins sb);
                        sc = (emit evs sb)\<lparr>plugins := ps\<rparr>
                    in fold dt_ui_container_foreach_remove_child [0..<length (containers sc)] sc))"
    have t1: "\<exists>e1. trace s1 = trace s0 @ e1 \<and> filter lifecycle e1 =
               (case current_view s of
                  Some A \<Rightarrow> if leave A then [View_call Leave (module_name A)] else []
                | None \<Rightarrow> [])"
      by (cases "current_view s") (simp_all add: s1_def Let_def case_prod_beta remove_fold)
    then obtain e1 where e1: "trace s1 = trace s0 @ e1" "filter lifecycle e1 =
               (case current_view s of
                  Some A \<Rightarrow> if leave A then [View_call Leave (module_name A)] else []
                | None \<Rightarrow> [])" by blast
    define s3 where "s3 = emit [Toolkit ''dt_thumbtable_update_accels_connection'',
                            Toolkit ''dt_ui_restore_panels''] (s1\<lparr>current_view := Some B\<rparr>)"
    define s4 where "s4 = attach_plugins B t (backwards (plugins s3)) s3"
    from attach_plugins_sem [of B t "backwards (plugins s3)" s3]
    obtain e4 where e4: "trace s4 = trace s3 @ e4" "filter lifecycle e4 = []"
      and c4: "current_view s4 = current_view s3"
      unfolding s4_def by blast
    define e5 where "e5 = show_plugins B (plugins s4) [0..<length (plugins s4)]"
    define e6 where "e6 = (if enter B then [View_call Enter (module_name B)] else [])
                            @ (if connect_key_accels B
                               then [View_call Connect_key_accels (module_name B)] else [])
                            @ [Toolkit ''dt_ui_update_scrollbars'']
                            @ (if accels_window (emit e5 s4) \<noteq> None \<and> accels_sticky (emit e5 s4)
                               then [Toolkit ''dt_view_accels_refresh''] else [])
                            @ [Signal_raise (DT_SIGNAL_VIEWMANAGER_VIEW_CHANGED
                                               (map_option module_name (current_view s)) (module_name B)),
                               Signal_raise DT_SIGNAL_CONTROL_LOG_REDRAW]"
    have res: "switch_to_view (current_view s) B s0 = Inr (0, emit e6 (emit e5 s4))"
      by (simp add: switch_to_view_def t Let_def flip: s1_def)
         (simp add: s3_def s4_def e5_def e6_def)
    have l6: "filter lifecycle e6 = (if enter B then [View_call Enter (module_name B)] else [])"
      by (simp add: e6_def)
    have tr: "trace (emit e6 (emit e5 s4)) =
                trace s0 @ (e1 @ [Toolkit ''dt_thumbtable_update_accels_connection'',
                            Toolkit ''dt_ui_restore_panels''] @ e4 @ e5 @ e6)"
      by (simp add: e4 s3_def e1)
    have fl: "filter lifecycle (e1 @ [Toolkit ''dt_thumbtable_update_accels_connection'',
                            Toolkit ''dt_ui_restore_panels''] @ e4 @ e5 @ e6) =
               (case current_view s of
                  Some A \<Rightarrow> if leave A then [View_call Leave (module_name A)] else []
                | None \<Rightarrow> [])
               @ (if enter B then [View_call Enter (module_name B)] else [])"
      by (simp add: e1 e4 l6 e5_def)
    have cv: "current_view (emit e6 (emit e5 s4)) = Some B"
      by (simp add: c4 s3_def)
    show ?thesis using res tr fl cv by blast
  qed
  show ?thesis
  proof (cases "try_enter B")
    case None
    then show ?thesis
      using main [of "switch_prelude s"]
      by (simp add: dt_view_manager_switch_by_view_def Let_def)
  next
    case (Some e)
    with guard have e: "e = 0" by simp
    from main [of "emit [View_call Try_enter (module_name B)] (switch_prelude s)"]
    obtain s' evs where
      r: "switch_to_view (current_view s) B (emit [View_call Try_enter (module_name B)] (switch_prelude s)) = Inr (0, s')"
      "current_view s' = Some B"
      "trace s' = trace (emit [View_call Try_enter (module_name B)] (switch_prelude s)) @ evs"
      "filter lifecycle evs =
               (case current_view s of
                  Some A \<Rightarrow> if leave A then [View_call Leave (module_name A)] else []
                | None \<Rightarrow> [])
               @ (if enter B then [View_call Enter (module_name B)] else [])" by blast
    have "dt_view_manager_switch_by_view s (Some B) = Inr (0, s')"
      using Some e r(1) by (simp add: dt_view_manager_switch_by_view_def Let_def)
    moreover have "trace s' = trace s @ (View_call Try_enter (module_name B) # evs)"
      using r(3) by simp
    moreover have "filter lifecycle (View_call Try_enter (module_name B) # evs) =
               (case current_view s of
                  Some A \<Rightarrow> if leave A then [View_call Leave (module_name A)] else []
                | None \<Rightarrow> [])
               @ (if enter B then [View_call Enter (module_name B)] else [])"
      using r(4) by simp
    ultimately show ?thesis using r(2) by blast
  qed
qed

lemma switch_leaves_then_enters_example:
  "(try_enter (guarded_view 0) = None \<or> try_enter (guarded_view 0) = Some 0)
   \<and> view (guarded_view 0) \<noteq> None
   \<and> (\<exists>s' evs. dt_view_manager_switch_by_view three_modules (Some (guarded_view 0)) = Inr (0, s')
          \<and> current_view s' = Some (guarded_view 0)
          \<and> trace s' = evs
          \<and> filter lifecycle evs = [View_call Leave ''lighttable'', View_call Enter ''darkroom''])"
proof -
  have h: "try_enter (guarded_view 0) = None \<or> try_enter (guarded_view 0) = Some 0"
    "view (guarded_view 0) \<noteq> None"
    by (simp_all add: example_view_fields)
  from switch_leaves_then_enters [OF h, of three_modules] show ?thesis
    using h by (auto simp: three_modules_fields example_view_fields)
qed

text \<open>
  Without \<^verbatim>\<open>view\<close> the same switch does not complete: \<^verbatim>\<open>new_view->view(new_view)\<close> is
  called through the \<^verbatim>\<open>NULL\<close> pointer right after \<^verbatim>\<open>vm->current_view = new_view\<close>,
  before any module of the new view is attached and before \<^verbatim>\<open>enter\<close>.
\<close>

lemma switch_faults_without_view_type:
  assumes "try_enter B = None \<or> try_enter B = Some 0" and "view B = None"
  shows "dt_view_manager_switch_by_view s (Some B) = Inl Null_call"
  using assms
  by (auto simp: dt_view_manager_switch_by_view_def switch_to_view_def Let_def)

text \<open>
  C4.  The claim asks that every switch to a view with no entry guard (or with a guard
  that returns zero) completes with that view current, the old view's \<^verbatim>\<open>leave\<close> called
  once and then the new view's \<^verbatim>\<open>enter\<close> called once.  The code does so for a view that
  exports \<^verbatim>\<open>view\<close> and not otherwise: from \<open>three_modules\<close> (current view
  \<open>handler_view\<close>, which has \<^verbatim>\<open>leave\<close>) the switch to \<open>typeless_view\<close>, which has no
  entry guard and has \<^verbatim>\<open>enter\<close>, ends in the call through \<^verbatim>\<open>NULL\<close>.
\<close>

theorem switch_to_view_without_view_type_faults:
  "try_enter typeless_view = None
   \<and> enter typeless_view
   \<and> current_view three_modules = Some handler_view
   \<and> leave handler_view
   \<and> dt_view_manager_switch_by_view three_modules (Some typeless_view) = Inl Null_call"
proof -
  have h: "try_enter typeless_view = None \<or> try_enter typeless_view = Some 0"
    "view typeless_view = None"
    by (simp_all add: typeless_view_def plain_view_def)
  have "try_enter typeless_view = None" "enter typeless_view"
    by (simp_all add: typeless_view_def plain_view_def)
  then show ?thesis
    using switch_faults_without_view_type [OF h, of three_modules]
    by (simp add: three_modules_fields example_view_fields)
qed

lemma module_leave_leave_plugins_none_0:
  "filter module_leave (snd (leave_plugins_none old 0 ps)) =
     map (Lib_call View_leave)
       [j \<leftarrow> [0..<length ps]. dt_lib_is_visible_in_view (ps ! j) old \<and> view_leave (ps ! j)]"
  using module_leave_leave_plugins_none [of old 0 ps] by simp

lemma dt_view_accels_hide_fields:
  "current_view (dt_view_accels_hide s) = current_view s"
  "containers (dt_view_accels_hide s) = containers s"
  "key_accelerators_on (dt_view_accels_hide s) = key_accelerators_on s"
  "cursor (dt_view_accels_hide s) = cursor s"
  "scroll_to (dt_view_accels_hide s) = scroll_to s"
  "undo (dt_view_accels_hide s) = undo s"
  "accels_window (dt_view_accels_hide s) \<noteq> None \<longrightarrow> accels_sticky (dt_view_accels_hide s)"
  "\<exists>evs. trace (dt_view_accels_hide s) = trace s @ evs
         \<and> filter lifecycle evs = [] \<and> filter module_leave evs = []"
  by (simp_all add: dt_view_accels_hide_def Let_def)

lemma switch_to_none_fields:
  "current_view (switch_to_none ov s) = None"
  "containers (switch_to_none ov s) = replicate (length (containers s)) []"
  "key_accelerators_on (switch_to_none ov s) = key_accelerators_on s"
  "cursor (switch_to_none ov s) = cursor s"
  "scroll_to (switch_to_none ov s) = scroll_to s"
  "undo (switch_to_none ov s) = undo s"
  "accels_window (switch_to_none ov s) \<noteq> None \<longrightarrow> accels_sticky (switch_to_none ov s)"
  by (cases ov; simp add: switch_to_none_def Let_def case_prod_beta destroy_fold
        dt_view_accels_hide_def)+

lemma switch_to_none_trace:
  "\<exists>evs. trace (switch_to_none ov s) = trace s @ evs
     \<and> filter lifecycle evs =
         (case ov of Some A \<Rightarrow> if leave A then [View_call Leave (module_name A)] else []
                   | None \<Rightarrow> [])
     \<and> filter module_leave evs =
         (case ov of
            Some A \<Rightarrow> map (Lib_call View_leave)
                        [i \<leftarrow> [0..<length (plugins s)].
                           dt_lib_is_visible_in_view (plugins s ! i) A \<and> view_leave (plugins s ! i)]
          | None \<Rightarrow> [])"
  by (cases ov; simp add: switch_to_none_def Let_def case_prod_beta destroy_fold
        dt_view_accels_hide_def module_leave_leave_plugins_none_0)

lemma switch_to_none_noop:
  assumes "current_view s = None" "containers s = replicate n []"
    and "accels_window s \<noteq> None \<longrightarrow> accels_sticky s"
  shows "switch_to_none None s = s"
  using assms
  by (simp add: switch_to_none_def Let_def destroy_fold dt_view_accels_hide_def)

text \<open>
  C6.  The switch to the empty name never fails and returns 0; afterwards there is no
  current view.  It calls the \<^verbatim>\<open>leave\<close> of the old view once (if there is one and it
  has the hook) and no other \<^verbatim>\<open>leave\<close> or \<^verbatim>\<open>enter\<close>, and it calls \<^verbatim>\<open>view_leave\<close> once
  for each module that is visible in the old view and has the hook, and for no other.
  The same switch in the state it leaves changes nothing: it returns 0 and the same
  state, trace included.
\<close>

theorem switch_to_none_leaves_once:
  "\<exists>s1 evs. dt_view_manager_switch s [] = Inr (0, s1)
     \<and> current_view s1 = None
     \<and> trace s1 = trace s @ evs
     \<and> filter lifecycle evs =
         (case current_view s of
            Some A \<Rightarrow> if leave A then [View_call Leave (module_name A)] else []
          | None \<Rightarrow> [])
     \<and> filter module_leave evs =
         (case current_view s of
            Some A \<Rightarrow> map (Lib_call View_leave)
                        [i \<leftarrow> [0..<length (plugins s)].
                           dt_lib_is_visible_in_view (plugins s ! i) A \<and> view_leave (plugins s ! i)]
          | None \<Rightarrow> [])
     \<and> dt_view_manager_switch s1 [] = Inr (0, s1)"
proof -
  define s1 where "s1 = switch_to_none (current_view s) (switch_prelude s)"
  have r1: "dt_view_manager_switch s [] = Inr (0, s1)"
    by (simp add: dt_view_manager_switch_def dt_view_manager_switch_by_view_def Let_def s1_def)
  have c1: "current_view s1 = None"
    by (simp add: s1_def switch_to_none_fields)
  have p1: "switch_prelude s1 = s1"
    by (rule prelude_idem) (simp_all add: s1_def switch_to_none_fields)
  have n1: "switch_to_none None s1 = s1"
    by (rule switch_to_none_noop [where n = "length (containers s)"])
       (simp_all add: s1_def switch_to_none_fields)
  have r2: "dt_view_manager_switch s1 [] = Inr (0, s1)"
    by (simp add: dt_view_manager_switch_def dt_view_manager_switch_by_view_def Let_def c1 p1 n1)
  from switch_to_none_trace [of "current_view s" "switch_prelude s", unfolded switch_prelude_simps]
  obtain evs where "trace s1 = trace s @ evs"
     "filter lifecycle evs =
         (case current_view s of
            Some A \<Rightarrow> if leave A then [View_call Leave (module_name A)] else []
          | None \<Rightarrow> [])"
     "filter module_leave evs =
         (case current_view s of
            Some A \<Rightarrow> map (Lib_call View_leave)
                        [i \<leftarrow> [0..<length (plugins s)].
                           dt_lib_is_visible_in_view (plugins s ! i) A \<and> view_leave (plugins s ! i)]
          | None \<Rightarrow> [])"
    unfolding s1_def by blast
  with r1 c1 r2 show ?thesis by blast
qed


theorem switch_to_none_witness:
  "\<exists>s1 evs. dt_view_manager_switch three_modules [] = Inr (0, s1)
     \<and> current_view s1 = None
     \<and> trace s1 = evs
     \<and> filter lifecycle evs = [View_call Leave ''lighttable'']
     \<and> filter module_leave evs = [Lib_call View_leave 0, Lib_call View_leave 1, Lib_call View_leave 2]
     \<and> dt_view_manager_switch s1 [] = Inr (0, s1)"
proof -
  have "[i \<leftarrow> [0..<length (plugins three_modules)].
           dt_lib_is_visible_in_view (plugins three_modules ! i) handler_view
           \<and> view_leave (plugins three_modules ! i)] = [0, 1, 2]"
    by (simp add: three_modules_fields handler_plugin_fields upt_rec)
  with switch_to_none_leaves_once [of three_modules] show ?thesis
    by (auto simp: three_modules_fields example_view_fields)
qed

subsection \<open>The view registry\<close>

lemma strcmp_eq_0_iff: "strcmp a b = 0 \<longleftrightarrow> a = b"
  by (induction a b rule: strcmp.induct) auto

lemma strcmp_le_0_iff: "strcmp a b \<le> 0 \<longleftrightarrow> a \<le> b"
  by (induction a b rule: strcmp.induct) (auto simp: less_char_def)

lemma view_pos_eq:
  "view_pos m = (if m = ''darkroom'' then 1 else if m = ''lighttable'' then 0 else 2)"
  by (simp add: view_pos_def n_view_order_def view_order_def strcmp_eq_0_iff)

lemma sort_views_key:
  assumes "name a \<noteq> None" "name b \<noteq> None"
  shows "\<exists>c. sort_views a b = Inr c \<and> (c \<le> 0 \<longleftrightarrow> view_key a \<le> view_key b)"
proof -
  from assms obtain an bn where n: "name a = Some an" "name b = Some bn" by auto
  show ?thesis
    by (auto simp: sort_views_def n Let_def view_key_def display_name_def strcmp_le_0_iff view_pos_eq)
qed

lemma insert_sorted_insort:
  assumes "name x \<noteq> None" "\<forall>v\<in>set ys. name v \<noteq> None"
  shows "insert_sorted sort_views x ys = Inr (insort_key view_key x ys)"
  using assms(2)
proof (induction ys)
  case Nil
  then show ?case by simp
next
  case (Cons y ys)
  from sort_views_key [of x y] assms(1) Cons.prems
  obtain c where c: "sort_views x y = Inr c" "c \<le> 0 \<longleftrightarrow> view_key x \<le> view_key y" by auto
  show ?case using Cons c by simp
qed

lemma load_modules_sort:
  assumes "\<forall>v\<in>set vs. name v \<noteq> None"
  shows "dt_module_load_modules sort_views vs = Inr (sort_key view_key vs)"
  using assms
proof (induction vs)
  case Nil
  then show ?case by simp
next
  case (Cons v vs)
  then show ?case by (simp add: insert_sorted_insort)
qed

lemma view_order_set: "m \<notin> set view_order \<longleftrightarrow> m \<noteq> ''lighttable'' \<and> m \<noteq> ''darkroom''"
  by (auto simp: view_order_def)

lemma registry_order_spec_eq:
  "registry_order_spec vs =
     filter (\<lambda>v. module_name v = ''lighttable'') vs
     @ filter (\<lambda>v. module_name v = ''darkroom'') vs
     @ sort_key display_name (filter (\<lambda>v. module_name v \<noteq> ''lighttable'' \<and> module_name v \<noteq> ''darkroom'') vs)"
  by (simp add: registry_order_spec_def view_order_set) (simp add: view_order_def)

lemma mset_registry_order_spec: "mset (registry_order_spec vs) = mset vs"
  unfolding registry_order_spec_eq by (induction vs) auto

lemma sorted_wrt_all: "(\<forall>x\<in>set xs. \<forall>y\<in>set xs. R x y) \<Longrightarrow> sorted_wrt R xs"
  by (induction xs) auto

lemma sorted_registry_order_spec:
  assumes "distinct (map module_name vs)"
  shows "sorted (map view_key (registry_order_spec vs))"
proof -
  from assms have inj: "inj_on module_name (set vs)" by (simp add: distinct_map)
  let ?A = "filter (\<lambda>v. module_name v = ''lighttable'') vs"
  let ?B = "filter (\<lambda>v. module_name v = ''darkroom'') vs"
  let ?U = "filter (\<lambda>v. module_name v \<noteq> ''lighttable'' \<and> module_name v \<noteq> ''darkroom'') vs"
  let ?C = "sort_key display_name ?U"
  have same: "view_key x \<le> view_key y"
    if "x \<in> set vs" "y \<in> set vs" "module_name x = module_name y" for x y
  proof -
    from inj that have "x = y" by (auto dest: inj_onD)
    then show ?thesis by simp
  qed
  have A: "sorted_wrt (\<lambda>x y. view_key x \<le> view_key y) ?A"
    by (rule sorted_wrt_all) (auto intro: same)
  have B: "sorted_wrt (\<lambda>x y. view_key x \<le> view_key y) ?B"
    by (rule sorted_wrt_all) (auto intro: same)
  have "sorted (map display_name ?C)" by (rule sorted_sort_key)
  then have "sorted_wrt (\<lambda>x y. display_name x \<le> display_name y) ?C"
    by (simp add: sorted_map)
  then have C: "sorted_wrt (\<lambda>x y. view_key x \<le> view_key y) ?C"
    by (rule sorted_wrt_mono_rel [rotated]) (auto simp: view_key_def view_pos_eq)
  show ?thesis
    unfolding registry_order_spec_eq sorted_map
    using A B C by (auto simp: sorted_wrt_append view_key_def view_pos_eq)
qed

lemma filter_key_registry_order_spec:
  "filter (\<lambda>x. view_key k = view_key x) (registry_order_spec vs) =
   filter (\<lambda>x. view_key k = view_key x) vs"
proof -
  let ?U = "filter (\<lambda>v. module_name v \<noteq> ''lighttable'' \<and> module_name v \<noteq> ''darkroom'') vs"
  have pos: "view_pos (module_name x) = 0 \<longleftrightarrow> module_name x = ''lighttable''"
    "view_pos (module_name x) = 1 \<longleftrightarrow> module_name x = ''darkroom''"
    "view_pos (module_name x) = 2 \<longleftrightarrow> module_name x \<noteq> ''lighttable'' \<and> module_name x \<noteq> ''darkroom''"
    for x
    by (auto simp: view_pos_eq)
  consider (lt) "module_name k = ''lighttable''" | (dr) "module_name k = ''darkroom''"
    | (other) "module_name k \<noteq> ''lighttable''" "module_name k \<noteq> ''darkroom''"
    by blast
  then show ?thesis
  proof cases
    case lt
    then have k: "view_key k = view_key x \<longleftrightarrow> module_name x = ''lighttable'' \<and> display_name x = display_name k" for x
      by (auto simp: view_key_def view_pos_eq split: if_splits)
    have "filter (\<lambda>x. module_name x = ''lighttable'' \<and> display_name x = display_name k)
            (sort_key display_name ?U) = []"
      by (auto simp: filter_empty_conv)
    then show ?thesis
      unfolding registry_order_spec_eq k
      by (auto simp: filter_empty_conv intro: filter_cong)
  next
    case dr
    then have k: "view_key k = view_key x \<longleftrightarrow> module_name x = ''darkroom'' \<and> display_name x = display_name k" for x
      by (auto simp: view_key_def view_pos_eq split: if_splits)
    have "filter (\<lambda>x. module_name x = ''darkroom'' \<and> display_name x = display_name k)
            (sort_key display_name ?U) = []"
      by (auto simp: filter_empty_conv)
    then show ?thesis
      unfolding registry_order_spec_eq k
      by (auto simp: filter_empty_conv intro: filter_cong)
  next
    case other
    then have k: "view_key k = view_key x \<longleftrightarrow>
        (module_name x \<noteq> ''lighttable'' \<and> module_name x \<noteq> ''darkroom'') \<and> display_name x = display_name k" for x
      by (auto simp: view_key_def view_pos_eq split: if_splits)
    have "filter (\<lambda>x. (module_name x \<noteq> ''lighttable'' \<and> module_name x \<noteq> ''darkroom'') \<and> display_name x = display_name k)
            (sort_key display_name ?U)
          = filter (\<lambda>x. display_name x = display_name k) (sort_key display_name ?U)"
      by (rule filter_cong) auto
    also have "\<dots> = filter (\<lambda>x. display_name x = display_name k) ?U"
      by (rule sort_key_stable)
    finally show ?thesis
      unfolding registry_order_spec_eq k
      by (auto simp: filter_empty_conv intro: filter_cong)
  qed
qed

lemma sort_key_registry_order_spec:
  assumes "distinct (map module_name vs)"
  shows "sort_key view_key vs = registry_order_spec vs"
  by (rule properties_for_sort_key)
     (simp_all add: mset_registry_order_spec filter_key_registry_order_spec
        sorted_registry_order_spec [OF assms])

lemma inj_on_view_key:
  assumes "distinct (map module_name vs)"
    and "distinct (map display_name [v \<leftarrow> vs. module_name v \<notin> set view_order])"
  shows "inj_on view_key (set vs)"
proof (rule inj_onI)
  fix a b assume a: "a \<in> set vs" and b: "b \<in> set vs" and k: "view_key a = view_key b"
  from assms(1) have inj: "inj_on module_name (set vs)" by (simp add: distinct_map)
  from assms(2) have inj2: "inj_on display_name (set [v \<leftarrow> vs. module_name v \<notin> set view_order])"
    by (simp add: distinct_map)
  show "a = b"
  proof (cases "module_name a \<in> set view_order")
    case True
    with k have "module_name a = module_name b"
      by (auto simp: view_key_def view_pos_eq view_order_def split: if_splits)
    with inj a b show ?thesis by (auto dest: inj_onD)
  next
    case False
    with k have "module_name b \<notin> set view_order" "display_name a = display_name b"
      by (auto simp: view_key_def view_pos_eq view_order_def split: if_splits)
    with False inj2 a b show ?thesis by (auto dest: inj_onD)
  qed
qed

text \<open>
  The registry of views that all export \<^verbatim>\<open>name\<close> and have pairwise distinct module
  names, whatever the order in which they were loaded: the views named in \<open>view_order\<close>
  first, in the order of that list, then all other views sorted by the byte-wise
  comparison of their display names.  When the display names of those other views are
  pairwise distinct, every load order of the same views gives the same registry.
\<close>

lemma registry_order:
  assumes names: "\<forall>v\<in>set vs. name v \<noteq> None"
    and dist: "distinct (map module_name vs)"
  shows "dt_view_manager_load_modules vs = Inr (registry_order_spec vs)
       \<and> (\<forall>ws. mset ws = mset vs
                 \<and> distinct (map display_name [v \<leftarrow> vs. module_name v \<notin> set view_order])
               \<longrightarrow> dt_view_manager_load_modules ws = dt_view_manager_load_modules vs)"
proof (intro conjI allI impI)
  show l: "dt_view_manager_load_modules vs = Inr (registry_order_spec vs)"
    by (simp add: dt_view_manager_load_modules_def load_modules_sort [OF names]
        sort_key_registry_order_spec [OF dist])
next
  fix ws
  assume h: "mset ws = mset vs
     \<and> distinct (map display_name [v \<leftarrow> vs. module_name v \<notin> set view_order])"
  then have set: "set ws = set vs" by (auto dest: mset_eq_setD)
  with names have names': "\<forall>v\<in>set ws. name v \<noteq> None" by simp
  have inj: "inj_on view_key (set ws)"
    unfolding set using dist h by (intro inj_on_view_key) auto
  have "sort_key view_key ws = sort_key view_key vs"
    using h inj by (intro sort_key_inj_key_eq) simp_all
  then show "dt_view_manager_load_modules ws = dt_view_manager_load_modules vs"
    by (simp add: dt_view_manager_load_modules_def load_modules_sort [OF names]
        load_modules_sort [OF names'])
qed

lemma plain_view_fields:
  "module_name (plain_view n) = n" "name (plain_view n) = Some n" "display_name (plain_view n) = n"
  by (simp_all add: plain_view_def display_name_def)

lemma plain_view_eq: "plain_view a = plain_view b \<longleftrightarrow> a = b"
  by (auto simp: plain_view_def)

text \<open>Two load orders of four views.\<close>

lemma registry_order_example:
  "dt_view_manager_load_modules
     [plain_view ''map'', plain_view ''darkroom'', plain_view ''tethering'', plain_view ''lighttable'']
   = Inr [plain_view ''lighttable'', plain_view ''darkroom'', plain_view ''map'', plain_view ''tethering'']
   \<and> dt_view_manager_load_modules
     [plain_view ''tethering'', plain_view ''lighttable'', plain_view ''map'', plain_view ''darkroom'']
   = Inr [plain_view ''lighttable'', plain_view ''darkroom'', plain_view ''map'', plain_view ''tethering'']"
proof -
  let ?vs = "[plain_view ''map'', plain_view ''darkroom'', plain_view ''tethering'', plain_view ''lighttable'']"
  let ?ws = "[plain_view ''tethering'', plain_view ''lighttable'', plain_view ''map'', plain_view ''darkroom'']"
  have h1: "\<forall>v\<in>set ?vs. name v \<noteq> None" by (simp add: plain_view_fields)
  have h2: "distinct (map module_name ?vs)" by (simp add: plain_view_fields)
  have h3: "mset ?ws = mset ?vs" by (simp add: plain_view_eq)
  have h4: "distinct (map display_name [v \<leftarrow> ?vs. module_name v \<notin> set view_order])"
    by (simp add: plain_view_fields view_order_def)
  have spec: "registry_order_spec ?vs =
     [plain_view ''lighttable'', plain_view ''darkroom'', plain_view ''map'', plain_view ''tethering'']"
    by (simp add: registry_order_spec_def plain_view_fields view_order_def)
  from registry_order [OF h1 h2] h3 h4 show ?thesis
    by (simp add: spec)
qed


text \<open>
  A view without \<^verbatim>\<open>name\<close> makes the comparison fault, on either side, and with it
  every sort that compares the view.
\<close>

lemma sort_views_faults_without_name:
  "name a = None \<or> name b = None \<Longrightarrow> sort_views a b = Inl Null_call"
  by (auto simp: sort_views_def split: option.splits)

text \<open>
  C5.  The claim asks for the registry order for all sequences of loaded views.  The
  code gives it for views that export \<^verbatim>\<open>name\<close> and not otherwise: \<^verbatim>\<open>sort_views\<close>
  calls \<^verbatim>\<open>av->name(av)\<close> and \<^verbatim>\<open>bv->name(bv)\<close> through the \<^verbatim>\<open>NULL\<close> pointer that
  \<^verbatim>\<open>dt_view_load_module\<close> leaves for a library without the symbol, so loading
  \<open>nameless_view\<close> together with a second view yields no registry, in either load
  order.  \<^verbatim>\<open>dt_view_manager_name\<close> tests the same slot and falls back to the module
  name.
\<close>

theorem sort_views_without_name_faults:
  "sort_views nameless_view (plain_view ''darkroom'') = Inl Null_call
   \<and> sort_views (plain_view ''darkroom'') nameless_view = Inl Null_call
   \<and> dt_view_manager_load_modules [nameless_view, plain_view ''darkroom''] = Inl Null_call
   \<and> dt_view_manager_load_modules [plain_view ''darkroom'', nameless_view] = Inl Null_call
   \<and> dt_view_manager_name ((darktable_init [] [])\<lparr>current_view := Some nameless_view\<rparr>) = ''map''"
proof -
  have n: "name nameless_view = None" "module_name nameless_view = ''map''"
    by (simp_all add: nameless_view_def plain_view_def)
  have c: "sort_views nameless_view (plain_view ''darkroom'') = Inl Null_call"
    "sort_views (plain_view ''darkroom'') nameless_view = Inl Null_call"
    by (simp_all add: sort_views_faults_without_name n)
  show ?thesis
    by (simp add: c n dt_view_manager_load_modules_def dt_view_manager_name_def darktable_init_def)
qed

end
